theory Spec2Isabelle
  imports Main
begin

section \<open>Data model (types.ts and the BatchTransaction interface of AddTransaction)\<close>

text \<open>
  Amounts are JavaScript numbers in the source. They are modelled as integers (an amount
  counted in the smallest currency unit), on which the source's \<open>+\<close>, \<open>-\<close>, \<open>>\<close> and
  \<open><=\<close> are exact; \<open>NaN\<close> and rounding of fractions are outside the model.
  Strings are byte lists; the Chinese literals of the source are written as their UTF-8
  bytes.
\<close>

datatype TransactionType = expense | income

text \<open>\<open>Omit<Transaction, 'id'>\<close>: the fields a caller hands to \<open>onSave\<close>.\<close>

record TransactionData =
  amount :: int
  type :: TransactionType
  categoryId :: string
  date :: string
  "note" :: string

text \<open>\<open>Transaction\<close>: the persisted record, the fields above plus \<open>id\<close>.\<close>

record Transaction = TransactionData +
  id_tx :: string

text \<open>
  \<open>BatchTransaction extends Omit<Transaction, 'id'>\<close>. The inherited fields are kept
  together as \<open>rest\<close> (the source's own name for them where it strips the batch-only
  fields); the five batch-only fields are optional in the source, \<open>None\<close> is
  \<open>undefined\<close>.
\<close>

datatype BatchTransaction = BatchTransaction
  (rest: TransactionData)
  (tempId: string)
  (mergeTargetId: "string option")
  (mergedChildren: "BatchTransaction list option")
  (originalAmount: "int option")
  (originalNote: "string option")

datatype ToastType = success | error

record AddTransactionState =
  batchMode :: bool
  batchList :: "BatchTransaction list"
  showBatchMergeModal :: bool
  activeBatchTempId :: "string option"
  toast :: "(string \<times> ToastType) option"

section \<open>JavaScript helpers\<close>

text \<open>Truthiness of a \<open>string | undefined | null\<close> value: absent and empty are falsy.\<close>

fun truthy :: "string option \<Rightarrow> bool" where
  "truthy None = False"
| "truthy (Some s) = (s \<noteq> [])"

text \<open>Number to string inside a template literal, for integers: decimal digits.\<close>

fun dec_nat :: "nat \<Rightarrow> string" where
  "dec_nat n = (if n < 10 then [''0123456789'' ! n]
                else dec_nat (n div 10) @ [''0123456789'' ! (n mod 10)])"

declare dec_nat.simps [simp del]

definition show_num :: "int \<Rightarrow> string" where
  "show_num i = (if i < 0 then CHR ''-'' # dec_nat (nat (- i)) else dec_nat (nat i))"

text \<open>\<open>Array.prototype.findIndex\<close>; \<open>None\<close> is the source's \<open>-1\<close>.\<close>

fun findIndex :: "('a \<Rightarrow> bool) \<Rightarrow> 'a list \<Rightarrow> nat option" where
  "findIndex P [] = None"
| "findIndex P (x # xs) = (if P x then Some 0 else map_option Suc (findIndex P xs))"

text \<open>\<open>xs.splice(i, 0, ...ys)\<close> on a copy: insert \<open>ys\<close> before position \<open>i\<close>.\<close>

definition splice_in :: "nat \<Rightarrow> 'a list \<Rightarrow> 'a list \<Rightarrow> 'a list" where
  "splice_in i ys xs = take i xs @ ys @ drop i xs"

section \<open>String literals of the source\<close>

definition txt_income :: string where
  "txt_income = [CHR 0xE6, CHR 0x94, CHR 0xB6, CHR 0xE5, CHR 0x85, CHR 0xA5]"

definition txt_expense :: string where
  "txt_expense = [CHR 0xE6, CHR 0x94, CHR 0xAF, CHR 0xE5, CHR 0x87, CHR 0xBA]"

definition txt_offset :: string where
  "txt_offset = [CHR 0xE6, CHR 0x8A, CHR 0xB5, CHR 0xE6, CHR 0x89, CHR 0xA3]"

definition txt_fully_offset :: string where
  "txt_fully_offset = [CHR 0xE5, CHR 0xB7, CHR 0xB2, CHR 0xE5, CHR 0x85, CHR 0xA8,
     CHR 0xE9, CHR 0xA2, CHR 0x9D] @ txt_offset"

definition txt_offset_remainder :: string where
  "txt_offset_remainder = txt_offset @ [CHR 0xE5, CHR 0x89, CHR 0xA9, CHR 0xE4, CHR 0xBD, CHR 0x99]"

definition txt_amount_must_be_positive :: string where
  "txt_amount_must_be_positive = [CHR 0xE9, CHR 0x87, CHR 0x91, CHR 0xE9, CHR 0xA2, CHR 0x9D,
     CHR 0xE5, CHR 0xBF, CHR 0x85, CHR 0xE9, CHR 0xA1, CHR 0xBB, CHR 0xE5, CHR 0xA4, CHR 0xA7,
     CHR 0xE4, CHR 0xBA, CHR 0x8E, CHR 0x30]"

definition txt_merged :: string where
  "txt_merged = [CHR 0xE5, CHR 0xB7, CHR 0xB2, CHR 0xE5, CHR 0x90, CHR 0x88, CHR 0xE5, CHR 0xB9,
     CHR 0xB6, CHR 0x28, CHR 0xE7, CHR 0x9B, CHR 0xB8, CHR 0xE5, CHR 0x8A, CHR 0xA0, CHR 0x29]"

definition txt_offset_done :: string where
  "txt_offset_done = [CHR 0xE5, CHR 0xB7, CHR 0xB2, CHR 0xE6, CHR 0x8A, CHR 0xB5, CHR 0xE6,
     CHR 0x89, CHR 0xA3, CHR 0x28, CHR 0xE7, CHR 0x9B, CHR 0xB8, CHR 0xE5, CHR 0x87, CHR 0x8F,
     CHR 0x29]"

definition txt_split_done :: string where
  "txt_split_done = [CHR 0xE5, CHR 0xB7, CHR 0xB2, CHR 0xE6, CHR 0x8B, CHR 0x86, CHR 0xE5,
     CHR 0x88, CHR 0x86, CHR 0x2F, CHR 0xE6, CHR 0x92, CHR 0xA4, CHR 0xE9, CHR 0x94, CHR 0x80,
     CHR 0xE5, CHR 0x90, CHR 0x88, CHR 0xE5, CHR 0xB9, CHR 0xB6]"

definition txt_saved :: string where
  "txt_saved = [CHR 0xE5, CHR 0xB7, CHR 0xB2, CHR 0xE4, CHR 0xBF, CHR 0x9D, CHR 0xE5, CHR 0xAD,
     CHR 0x98]"

definition showToast :: "string \<Rightarrow> ToastType \<Rightarrow> AddTransactionState \<Rightarrow> AddTransactionState" where
  "showToast msg ty st = st\<lparr>toast := Some (msg, ty)\<rparr>"

section \<open>Merging and offsetting inside the batch list\<close>

text \<open>
  \<open>children t\<close> is the source's \<open>t.mergedChildren || []\<close>.
\<close>

definition children :: "BatchTransaction \<Rightarrow> BatchTransaction list" where
  "children t = (case mergedChildren t of None \<Rightarrow> [] | Some cs \<Rightarrow> cs)"

text \<open>
  \<open>baseTarget\<close>: the target itself when \<open>mergedChildren\<close> is truthy (any array is, the
  empty one too), otherwise the target with an empty child list and a snapshot of its
  amount and note.
\<close>

definition baseTarget :: "BatchTransaction \<Rightarrow> BatchTransaction" where
  "baseTarget targetItem =
     (case mergedChildren targetItem of
        Some cs \<Rightarrow> targetItem
      | None \<Rightarrow> BatchTransaction (rest targetItem) (tempId targetItem) (mergeTargetId targetItem)
                  (Some []) (Some (amount (rest targetItem))) (Some (note (rest targetItem))))"

definition sourceTypeName :: "TransactionType \<Rightarrow> string" where
  "sourceTypeName ty = (if ty = income then txt_income else txt_expense)"

definition offsetNote :: "BatchTransaction \<Rightarrow> string" where
  "offsetNote sourceItem =
     '' ('' @ txt_offset @ sourceTypeName (type (rest sourceItem)) @ '' ''
       @ show_num (amount (rest sourceItem)) @ '': '' @ note (rest sourceItem) @ '')''"

definition updatedTarget :: "BatchTransaction \<Rightarrow> BatchTransaction \<Rightarrow> BatchTransaction" where
  "updatedTarget sourceItem targetItem =
     (let b = baseTarget targetItem in
      if type (rest sourceItem) = type (rest b)
      then BatchTransaction
             ((rest b)\<lparr>amount := amount (rest b) + amount (rest sourceItem),
                       note := (if note (rest b) \<noteq> []
                                then note (rest b) @ '' + '' @ note (rest sourceItem)
                                else note (rest sourceItem))\<rparr>)
             (tempId b) (mergeTargetId b) (Some (children b @ [sourceItem]))
             (originalAmount b) (originalNote b)
      else
        (let newTargetAmount = amount (rest b) - amount (rest sourceItem) in
         BatchTransaction
           ((rest b)\<lparr>amount := (if newTargetAmount > 0 then newTargetAmount else 0),
                     note := note (rest b) @ offsetNote sourceItem\<rparr>)
           (tempId b) (mergeTargetId b) (Some (children b @ [sourceItem]))
           (originalAmount b) (originalNote b)))"

definition set_mergeTargetId :: "string option \<Rightarrow> BatchTransaction \<Rightarrow> BatchTransaction" where
  "set_mergeTargetId m item =
     BatchTransaction (rest item) (tempId item) m (mergedChildren item)
       (originalAmount item) (originalNote item)"

text \<open>
  \<open>handleSelectBatchMergeTarget(targetId, isUnsavedBatchItem)\<close>. The handler returns at
  once when no source is active. With an unsaved target it looks both items up by
  \<open>tempId\<close> (first match) and, when both exist, removes every item carrying the source's
  \<open>tempId\<close> and replaces every item carrying the target's \<open>tempId\<close>; with a saved target
  it records \<open>mergeTargetId\<close> on the source. In both cases the modal is closed and the
  active source is reset afterwards.
\<close>

definition handleSelectBatchMergeTarget ::
  "string \<Rightarrow> bool \<Rightarrow> AddTransactionState \<Rightarrow> AddTransactionState" where
  "handleSelectBatchMergeTarget targetId isUnsavedBatchItem st =
     (if \<not> truthy (activeBatchTempId st) then st
      else
        (let active = the (activeBatchTempId st);
             st1 =
               (if isUnsavedBatchItem then
                  (case (find (\<lambda>t. tempId t = active) (batchList st),
                         find (\<lambda>t. tempId t = targetId) (batchList st)) of
                     (Some sourceItem, Some targetItem) \<Rightarrow>
                       (let u = updatedTarget sourceItem targetItem;
                            st0 = showToast
                                    (if type (rest sourceItem) = type (rest (baseTarget targetItem))
                                     then txt_merged else txt_offset_done) success st;
                            listWithoutSource = filter (\<lambda>t. tempId t \<noteq> active) (batchList st0)
                        in st0\<lparr>batchList :=
                                 map (\<lambda>t. if tempId t = targetId then u else t) listWithoutSource\<rparr>)
                   | _ \<Rightarrow> st)
                else
                  st\<lparr>batchList :=
                       map (\<lambda>item. if tempId item = active
                                    then set_mergeTargetId (Some targetId) item else item)
                           (batchList st)\<rparr>)
         in st1\<lparr>showBatchMergeModal := False, activeBatchTempId := None\<rparr>))"

text \<open>\<open>handleClearBatchMerge(tempId)\<close>.\<close>

definition handleClearBatchMerge :: "string \<Rightarrow> AddTransactionState \<Rightarrow> AddTransactionState" where
  "handleClearBatchMerge tid st =
     st\<lparr>batchList := map (\<lambda>item. if tempId item = tid then set_mergeTargetId None item else item)
                          (batchList st)\<rparr>"

text \<open>
  \<open>getBatchMergeCandidates(currentTempId)\<close>: the unsaved items offered as targets for a
  source, of either type.
\<close>

definition getBatchMergeCandidates :: "string \<Rightarrow> AddTransactionState \<Rightarrow> BatchTransaction list" where
  "getBatchMergeCandidates currentTempId st = filter (\<lambda>t. tempId t \<noteq> currentTempId) (batchList st)"

text \<open>
  \<open>handleOpenBatchMerge(tempId)\<close>: makes the item the active source and opens the modal.
  It also copies the item's type into the single-entry form's type selector, a piece of
  state that none of the handlers modelled here reads.
\<close>

definition handleOpenBatchMerge :: "string \<Rightarrow> AddTransactionState \<Rightarrow> AddTransactionState" where
  "handleOpenBatchMerge tid st = st\<lparr>activeBatchTempId := Some tid, showBatchMergeModal := True\<rparr>"

section \<open>Adding, editing and deleting batch items\<close>

text \<open>
  New items enter the list in two places, the "add a row" button and \<open>processAIResults\<close>;
  both build an expense with the five inherited fields, a \<open>tempId\<close> and no merge target,
  children or snapshot, and append it.
\<close>

definition newBatchItem :: "string \<Rightarrow> int \<Rightarrow> string \<Rightarrow> string \<Rightarrow> string \<Rightarrow> BatchTransaction" where
  "newBatchItem tid a cat d n =
     BatchTransaction \<lparr>amount = a, type = expense, categoryId = cat, date = d, note = n\<rparr>
       tid None None None None"

definition addBatchItems :: "BatchTransaction list \<Rightarrow> AddTransactionState \<Rightarrow> AddTransactionState" where
  "addBatchItems newBatch st = st\<lparr>batchList := batchList st @ newBatch\<rparr>"

text \<open>
  \<open>handleUpdateBatchItem(tempId, field, value)\<close> with \<open>field: keyof BatchTransaction\<close>: a
  field together with its new value. Writing \<open>type\<close> also clears \<open>mergeTargetId\<close>.
\<close>

datatype FieldValue =
    F_amount int
  | F_type TransactionType
  | F_categoryId string
  | F_date string
  | F_note string
  | F_tempId string
  | F_mergeTargetId "string option"
  | F_mergedChildren "BatchTransaction list option"
  | F_originalAmount "int option"
  | F_originalNote "string option"

fun setField :: "FieldValue \<Rightarrow> BatchTransaction \<Rightarrow> BatchTransaction" where
  "setField (F_amount v) (BatchTransaction r t m c oa on) = BatchTransaction (r\<lparr>amount := v\<rparr>) t m c oa on"
| "setField (F_type v) (BatchTransaction r t m c oa on) = BatchTransaction (r\<lparr>type := v\<rparr>) t None c oa on"
| "setField (F_categoryId v) (BatchTransaction r t m c oa on) = BatchTransaction (r\<lparr>categoryId := v\<rparr>) t m c oa on"
| "setField (F_date v) (BatchTransaction r t m c oa on) = BatchTransaction (r\<lparr>date := v\<rparr>) t m c oa on"
| "setField (F_note v) (BatchTransaction r t m c oa on) = BatchTransaction (r\<lparr>note := v\<rparr>) t m c oa on"
| "setField (F_tempId v) (BatchTransaction r t m c oa on) = BatchTransaction r v m c oa on"
| "setField (F_mergeTargetId v) (BatchTransaction r t m c oa on) = BatchTransaction r t v c oa on"
| "setField (F_mergedChildren v) (BatchTransaction r t m c oa on) = BatchTransaction r t m v oa on"
| "setField (F_originalAmount v) (BatchTransaction r t m c oa on) = BatchTransaction r t m c v on"
| "setField (F_originalNote v) (BatchTransaction r t m c oa on) = BatchTransaction r t m c oa v"

definition handleUpdateBatchItem ::
  "string \<Rightarrow> FieldValue \<Rightarrow> AddTransactionState \<Rightarrow> AddTransactionState" where
  "handleUpdateBatchItem tid fv st =
     st\<lparr>batchList := map (\<lambda>item. if tempId item = tid then setField fv item else item)
                          (batchList st)\<rparr>"

text \<open>The fields the batch form has inputs for: amount, date, type, category and note.\<close>

fun formField :: "FieldValue \<Rightarrow> bool" where
  "formField (F_amount v) = True"
| "formField (F_type v) = True"
| "formField (F_categoryId v) = True"
| "formField (F_date v) = True"
| "formField (F_note v) = True"
| "formField _ = False"

definition handleDeleteBatchItem :: "string \<Rightarrow> AddTransactionState \<Rightarrow> AddTransactionState" where
  "handleDeleteBatchItem tid st =
     (let newList = filter (\<lambda>item. tempId item \<noteq> tid) (batchList st) in
      (if length newList = 0 then st\<lparr>batchMode := False\<rparr> else st)\<lparr>batchList := newList\<rparr>)"

section \<open>Splitting a merged batch item\<close>

text \<open>
  \<open>handleSplitBatchItem(tempId)\<close>: nothing changes in the list when the item is missing
  or has no children. Otherwise the item is reverted to its snapshot (to its current
  amount or note where the snapshot lacks one), its children and snapshot are cleared,
  and the children are inserted right after it. The toast is shown in every case.
\<close>

definition revertedParent :: "BatchTransaction \<Rightarrow> BatchTransaction" where
  "revertedParent item =
     BatchTransaction
       ((rest item)\<lparr>amount := (case originalAmount item of Some a \<Rightarrow> a | None \<Rightarrow> amount (rest item)),
                    note := (case originalNote item of Some n \<Rightarrow> n | None \<Rightarrow> note (rest item))\<rparr>)
       (tempId item) (mergeTargetId item) None None None"

definition splitList :: "string \<Rightarrow> BatchTransaction list \<Rightarrow> BatchTransaction list" where
  "splitList tid prev =
     (case findIndex (\<lambda>t. tempId t = tid) prev of
        None \<Rightarrow> prev
      | Some itemIndex \<Rightarrow>
          (let item = prev ! itemIndex in
           if children item = [] then prev
           else splice_in (itemIndex + 1) (children item) (prev[itemIndex := revertedParent item])))"

definition handleSplitBatchItem :: "string \<Rightarrow> AddTransactionState \<Rightarrow> AddTransactionState" where
  "handleSplitBatchItem tid st =
     showToast txt_split_done success (st\<lparr>batchList := splitList tid (batchList st)\<rparr>)"

section \<open>Saving from the batch list\<close>

text \<open>
  The save handlers call the \<open>onSave\<close> and \<open>onClose\<close> props. A handler's outcome is
  the list of \<open>onSave\<close> calls it makes, in order (each the transactions handed over and
  the optional merge target id), whether it calls \<open>onClose\<close>, and the component state
  it leaves.
\<close>

type_synonym SaveCall = "TransactionData list \<times> string option"

record SaveOutcome =
  onSaveCalls :: "SaveCall list"
  onCloseCalled :: bool
  nextState :: AddTransactionState

text \<open>
  \<open>handleSaveSingleBatchItem(tempId)\<close>: the first item with that \<open>tempId\<close>; a missing
  item ends the handler silently, a non-positive amount ends it with an error toast.
  Otherwise the item, stripped of its batch-only fields, is saved with its merge target
  id and deleted from the list.
\<close>

definition handleSaveSingleBatchItem :: "string \<Rightarrow> AddTransactionState \<Rightarrow> SaveOutcome" where
  "handleSaveSingleBatchItem tid st =
     (case find (\<lambda>t. tempId t = tid) (batchList st) of
        None \<Rightarrow> \<lparr>onSaveCalls = [], onCloseCalled = False, nextState = st\<rparr>
      | Some item \<Rightarrow>
          if amount (rest item) = 0 \<or> amount (rest item) \<le> 0
          then \<lparr>onSaveCalls = [], onCloseCalled = False,
                nextState = showToast txt_amount_must_be_positive error st\<rparr>
          else \<lparr>onSaveCalls = [([rest item], mergeTargetId item)], onCloseCalled = False,
                nextState = showToast txt_saved success (handleDeleteBatchItem tid st)\<rparr>)"

text \<open>
  \<open>handleSaveAllBatch()\<close>: items with a positive amount are valid. With no valid item
  the handler returns, after an error toast when the list is not empty. Otherwise the
  valid items without a (truthy) merge target id are saved in one call, when there are
  any, then each valid item with a merge target id in a call of its own, and the view is
  closed.
\<close>

definition validItems :: "BatchTransaction list \<Rightarrow> BatchTransaction list" where
  "validItems bl = filter (\<lambda>t. amount (rest t) > 0) bl"

definition regularItems :: "BatchTransaction list \<Rightarrow> BatchTransaction list" where
  "regularItems bl = filter (\<lambda>t. \<not> truthy (mergeTargetId t)) (validItems bl)"

definition mergedItems :: "BatchTransaction list \<Rightarrow> BatchTransaction list" where
  "mergedItems bl = filter (\<lambda>t. truthy (mergeTargetId t)) (validItems bl)"

definition handleSaveAllBatch :: "AddTransactionState \<Rightarrow> SaveOutcome" where
  "handleSaveAllBatch st =
     (if length (validItems (batchList st)) = 0
      then \<lparr>onSaveCalls = [], onCloseCalled = False,
            nextState = (if length (batchList st) > 0
                         then showToast txt_amount_must_be_positive error st else st)\<rparr>
      else \<lparr>onSaveCalls =
              (if length (regularItems (batchList st)) > 0
               then [(map rest (regularItems (batchList st)), None)] else [])
              @ map (\<lambda>item. ([rest item], mergeTargetId item)) (mergedItems (batchList st)),
            onCloseCalled = True, nextState = st\<rparr>)"

section \<open>The transaction store (App)\<close>

text \<open>
  \<open>addTransaction(newTransactions, mergeTargetId)\<close> computes the array it passes to
  \<open>setTransactions\<close> from \<open>transactions\<close>, the store as the enclosing render holds it,
  and from \<open>Date.now()\<close>, here the parameter \<open>now\<close>. The parameter \<open>targetId\<close> is
  the source's \<open>mergeTargetId\<close>.
\<close>

definition offsetTypeStr :: "TransactionData \<Rightarrow> string" where
  "offsetTypeStr newTrans = (if type newTrans = income then txt_income else txt_expense)"

definition updateTarget :: "TransactionData \<Rightarrow> Transaction \<Rightarrow> Transaction" where
  "updateTarget newTrans t =
     (let offsetAmount = amount newTrans;
          notePrefix = (if note newTrans \<noteq> [] then note newTrans @ '' '' else []);
          newAmount = amount t - offsetAmount
      in if newAmount \<le> 0
         then t\<lparr>amount := 0,
                note := note t @ '' ('' @ txt_fully_offset @ '': '' @ offsetTypeStr newTrans
                          @ '' '' @ show_num offsetAmount @ '')''\<rparr>
         else t\<lparr>amount := newAmount,
                note := note t @ '' ('' @ txt_offset @ '': '' @ offsetTypeStr newTrans
                          @ '' '' @ show_num offsetAmount @ '' '' @ notePrefix @ '')''\<rparr>)"

definition remainderTrans :: "nat \<Rightarrow> TransactionData \<Rightarrow> Transaction \<Rightarrow> Transaction" where
  "remainderTrans now newTrans target =
     \<lparr>amount = amount newTrans - amount target, type = type newTrans,
      categoryId = categoryId newTrans, date = date newTrans,
      note = note newTrans @ '' ('' @ txt_offset_remainder @ '')'',
      id_tx = dec_nat now\<rparr>"

definition withId :: "string \<Rightarrow> TransactionData \<Rightarrow> Transaction" where
  "withId i t = \<lparr>amount = amount t, type = type t, categoryId = categoryId t, date = date t,
                 note = note t, id_tx = i\<rparr>"

definition addTransaction ::
  "Transaction list \<Rightarrow> nat \<Rightarrow> TransactionData list \<Rightarrow> string option \<Rightarrow> Transaction list" where
  "addTransaction transactions now newTransactions targetId =
     (if truthy targetId \<and> length newTransactions = 1 then
        (let newTrans = newTransactions ! 0;
             updatedTransactions =
               map (\<lambda>t. if id_tx t = the targetId then updateTarget newTrans t else t)
                   transactions
         in case find (\<lambda>t. id_tx t = the targetId) transactions of
              Some target \<Rightarrow>
                if amount newTrans > amount target
                then filter (\<lambda>t. amount t > 0) updatedTransactions
                       @ [remainderTrans now newTrans target]
                else filter (\<lambda>t. amount t > 0) updatedTransactions
            | None \<Rightarrow> filter (\<lambda>t. amount t > 0) updatedTransactions)
      else
        transactions
          @ map (\<lambda>(index, t). withId (dec_nat (now + index)) t) (enumerate 0 newTransactions))"

text \<open>
  The \<open>onSave\<close> prop is \<open>addTransaction\<close>. The handlers above run inside one event, so
  every call they make goes to the closure of one render: \<open>transactions\<close> is a
  \<open>const\<close> of that render and is the same in each call, and \<open>setTransactions\<close> is given
  a plain array, which replaces whatever an earlier call of the same event had set.
  \<open>commitCalls\<close> threads the pending store value through the calls; \<open>clock k\<close> is what
  \<open>Date.now()\<close> returns in the \<open>k\<close>-th call.
\<close>

fun commitCalls ::
  "Transaction list \<Rightarrow> (nat \<Rightarrow> nat) \<Rightarrow> nat \<Rightarrow> SaveCall list \<Rightarrow> Transaction list \<Rightarrow> Transaction list" where
  "commitCalls transactions clock k [] pending = pending"
| "commitCalls transactions clock k ((newTransactions, targetId) # cs) pending =
     commitCalls transactions clock (Suc k) cs
       (addTransaction transactions (clock k) newTransactions targetId)"

text \<open>The store after a save-all of the batch list, and after the single-entry save.\<close>

definition saveAllStore :: "Transaction list \<Rightarrow> (nat \<Rightarrow> nat) \<Rightarrow> AddTransactionState \<Rightarrow> Transaction list" where
  "saveAllStore transactions clock st =
     commitCalls transactions clock 0 (onSaveCalls (handleSaveAllBatch st)) transactions"

definition saveSingleItemStore ::
  "Transaction list \<Rightarrow> (nat \<Rightarrow> nat) \<Rightarrow> string \<Rightarrow> AddTransactionState \<Rightarrow> Transaction list" where
  "saveSingleItemStore transactions clock tid st =
     commitCalls transactions clock 0 (onSaveCalls (handleSaveSingleBatchItem tid st)) transactions"

section \<open>The batch list as a state machine\<close>

text \<open>
  The component starts with an empty batch list, no active source and no toast. The user
  events that touch the batch list are the handlers above.
\<close>

definition initialState :: AddTransactionState where
  "initialState = \<lparr>batchMode = False, batchList = [], showBatchMergeModal = False,
                    activeBatchTempId = None, toast = None\<rparr>"

datatype BatchEvent =
    AddRows "(string \<times> int \<times> string \<times> string \<times> string) list"
  | UpdateField string FieldValue
  | DeleteItem string
  | OpenMerge string
  | SelectTarget string bool
  | ClearMerge string
  | SplitItem string
  | SaveSingle string

fun handleEvent :: "BatchEvent \<Rightarrow> AddTransactionState \<Rightarrow> AddTransactionState" where
  "handleEvent (AddRows rows) st =
     addBatchItems (map (\<lambda>(tid, a, cat, d, n). newBatchItem tid a cat d n) rows) st"
| "handleEvent (UpdateField tid fv) st = handleUpdateBatchItem tid fv st"
| "handleEvent (DeleteItem tid) st = handleDeleteBatchItem tid st"
| "handleEvent (OpenMerge tid) st = handleOpenBatchMerge tid st"
| "handleEvent (SelectTarget targetId isUnsavedBatchItem) st =
     handleSelectBatchMergeTarget targetId isUnsavedBatchItem st"
| "handleEvent (ClearMerge tid) st = handleClearBatchMerge tid st"
| "handleEvent (SplitItem tid) st = handleSplitBatchItem tid st"
| "handleEvent (SaveSingle tid) st = nextState (handleSaveSingleBatchItem tid st)"

fun runEvents :: "BatchEvent list \<Rightarrow> AddTransactionState \<Rightarrow> AddTransactionState" where
  "runEvents [] st = st"
| "runEvents (e # es) st = runEvents es (handleEvent e st)"

text \<open>An event the rendered form can raise: field updates come from its five inputs.\<close>

fun formEvent :: "BatchEvent \<Rightarrow> bool" where
  "formEvent (UpdateField tid fv) = formField fv"
| "formEvent _ = True"

text \<open>
  The invariant carried through the events: an item either has no child list and no
  snapshot, or a non-empty child list and both snapshot fields, and its children are
  again such items.
\<close>

fun wf_item :: "BatchTransaction \<Rightarrow> bool" where
  "wf_item (BatchTransaction r t m c oa on) =
     (case c of
        None \<Rightarrow> oa = None \<and> on = None
      | Some cs \<Rightarrow> cs \<noteq> [] \<and> oa \<noteq> None \<and> on \<noteq> None \<and> (\<forall>x \<in> set cs. wf_item x))"

text \<open>The batch list after selecting an unsaved target and then splitting that target.\<close>

definition mergeThenSplit :: "string \<Rightarrow> AddTransactionState \<Rightarrow> BatchTransaction list" where
  "mergeThenSplit tid st =
     batchList (handleSplitBatchItem tid (handleSelectBatchMergeTarget tid True st))"

section \<open>Counting what a save-all hands to the store\<close>

text \<open>
  Of the \<open>onSave\<close> calls of a handler: the transactions handed over without a merge
  target (each becomes a new record), and the calls that carry a merge target.
\<close>

definition plainRecords :: "SaveCall list \<Rightarrow> TransactionData list" where
  "plainRecords cs = concat (map fst (filter (\<lambda>c. \<not> truthy (snd c)) cs))"

definition mergeCalls :: "SaveCall list \<Rightarrow> SaveCall list" where
  "mergeCalls cs = filter (\<lambda>c. truthy (snd c)) cs"

section \<open>Example values\<close>

definition exA :: BatchTransaction where
  "exA = BatchTransaction \<lparr>amount = 100, type = expense, categoryId = ''1'', date = ''2024-01-01'',
           note = ''lunch''\<rparr> ''t1'' None None None None"

definition exB :: BatchTransaction where
  "exB = BatchTransaction \<lparr>amount = 50, type = expense, categoryId = ''1'', date = ''2024-01-02'',
           note = ''taxi''\<rparr> ''t2'' None None None None"

definition exI :: BatchTransaction where
  "exI = BatchTransaction \<lparr>amount = 80, type = income, categoryId = ''7'', date = ''2024-01-03'',
           note = ''refund''\<rparr> ''t3'' None None None None"

definition exZ :: BatchTransaction where
  "exZ = BatchTransaction \<lparr>amount = 0, type = expense, categoryId = ''1'', date = ''2024-01-04'',
           note = []\<rparr> ''t4'' None None None None"

text \<open>Two staged expenses, the first being merged.\<close>

definition exMergeState :: AddTransactionState where
  "exMergeState = \<lparr>batchMode = True, batchList = [exA, exB], showBatchMergeModal = True,
                    activeBatchTempId = Some ''t1'', toast = None\<rparr>"

text \<open>A staged income of 80 being offset into a staged expense of 50.\<close>

definition exOffsetState :: AddTransactionState where
  "exOffsetState = \<lparr>batchMode = True, batchList = [exI, exB], showBatchMergeModal = True,
                     activeBatchTempId = Some ''t3'', toast = None\<rparr>"

text \<open>A persisted income of 100 and a new expense of 120 that targets it.\<close>

definition exStore :: "Transaction list" where
  "exStore = [\<lparr>amount = 100, type = income, categoryId = ''7'', date = ''2024-01-01'',
               note = ''salary'', id_tx = ''1''\<rparr>]"

definition exNew :: TransactionData where
  "exNew = \<lparr>amount = 120, type = expense, categoryId = ''1'', date = ''2024-01-05'',
            note = ''rent''\<rparr>"

text \<open>The same store with a second, unrelated record whose amount is zero.\<close>

definition exStoreZero :: "Transaction list" where
  "exStoreZero = exStore @ [\<lparr>amount = 0, type = expense, categoryId = ''2'',
                             date = ''2023-12-31'', note = ''void'', id_tx = ''2''\<rparr>]"

text \<open>Batch lists for save-all: one offsetting item, and a valid item beside an empty row.\<close>

definition exOffsetting :: BatchTransaction where
  "exOffsetting = BatchTransaction exNew ''t5'' (Some ''1'') None None None"

definition exOtherOffsetting :: BatchTransaction where
  "exOtherOffsetting = BatchTransaction \<lparr>amount = 130, type = expense, categoryId = ''3'',
           date = ''2024-01-06'', note = ''shoes''\<rparr> ''t6'' (Some ''1'') None None None"

definition exBatch :: "BatchTransaction list \<Rightarrow> AddTransactionState" where
  "exBatch bl = \<lparr>batchMode = True, batchList = bl, showBatchMergeModal = False,
                 activeBatchTempId = None, toast = None\<rparr>"

definition exClock :: "nat \<Rightarrow> nat" where
  "exClock k = 1700 + k"

definition exEvents :: "BatchEvent list" where
  "exEvents = [AddRows [(''t1'', 100, ''1'', ''2024-01-01'', ''lunch''),
                        (''t2'', 50, ''1'', ''2024-01-02'', ''taxi'')],
               UpdateField ''t2'' (F_amount 60),
               OpenMerge ''t1'', SelectTarget ''t2'' True,
               UpdateField ''t2'' (F_note ''both'')]"

section \<open>Properties\<close>

subsection \<open>Lookups and replacement in the batch list\<close>

lemma find_Some_D: "find P xs = Some x \<Longrightarrow> P x \<and> x \<in> set xs"
  by (induction xs) (auto split: if_splits)

lemma find_replace:
  "\<exists>x\<in>set xs. tempId x = tid \<Longrightarrow> tempId u = tid \<Longrightarrow>
   find (\<lambda>t. tempId t = tid) (map (\<lambda>t. if tempId t = tid then u else t) xs) = Some u"
  by (induction xs) auto

lemma in_replaced:
  "t \<in> set (map (\<lambda>x. if tempId x = tid then u else x) xs) \<Longrightarrow> t = u \<or> t \<in> set xs"
  by (induction xs) (auto split: if_splits)

lemma replace_no_source:
  assumes "tempId u = tid" and "tid \<noteq> sid"
  shows "\<forall>t \<in> set (map (\<lambda>t. if tempId t = tid then u else t)
                       (filter (\<lambda>t. tempId t \<noteq> sid) xs)). tempId t \<noteq> sid"
proof
  fix t
  assume "t \<in> set (map (\<lambda>t. if tempId t = tid then u else t) (filter (\<lambda>t. tempId t \<noteq> sid) xs))"
  then have "t = u \<or> t \<in> set (filter (\<lambda>t. tempId t \<noteq> sid) xs)"
    by (rule in_replaced)
  then show "tempId t \<noteq> sid"
  proof
    assume "t = u"
    then show ?thesis using assms by simp
  next
    assume "t \<in> set (filter (\<lambda>t. tempId t \<noteq> sid) xs)"
    then show ?thesis by simp
  qed
qed

lemma tempId_baseTarget [simp]: "tempId (baseTarget t) = tempId t"
  by (simp add: baseTarget_def split: option.splits)

lemma rest_baseTarget [simp]: "rest (baseTarget t) = rest t"
  by (simp add: baseTarget_def split: option.splits)

lemma children_baseTarget [simp]: "children (baseTarget t) = children t"
  by (simp add: baseTarget_def children_def split: option.splits)

lemma mergeTargetId_baseTarget [simp]: "mergeTargetId (baseTarget t) = mergeTargetId t"
  by (simp add: baseTarget_def split: option.splits)

lemma tempId_updatedTarget [simp]: "tempId (updatedTarget s t) = tempId t"
  by (simp add: updatedTarget_def Let_def)

lemma mergedChildren_updatedTarget [simp]:
  "mergedChildren (updatedTarget s t) = Some (children t @ [s])"
  by (simp add: updatedTarget_def Let_def)

lemma select_unsaved_batchList:
  assumes "activeBatchTempId st = Some sid" and "sid \<noteq> []"
    and "find (\<lambda>t. tempId t = sid) (batchList st) = Some S"
    and "find (\<lambda>t. tempId t = tid) (batchList st) = Some T"
  shows "batchList (handleSelectBatchMergeTarget tid True st) =
         map (\<lambda>t. if tempId t = tid then updatedTarget S T else t)
             (filter (\<lambda>t. tempId t \<noteq> sid) (batchList st))"
proof -
  have "truthy (activeBatchTempId st)" using assms(1,2) by simp
  then show ?thesis
    unfolding handleSelectBatchMergeTarget_def
    by (simp add: assms(1,3,4) showToast_def Let_def)
qed

text \<open>
  What a selection of an unsaved target does to the list, whatever the two types are:
  the target is found again as the updated item, which has absorbed the source, and no
  item with the source's \<open>tempId\<close> is left.
\<close>

lemma select_unsaved_effect:
  assumes "activeBatchTempId st = Some sid" and "sid \<noteq> []"
    and "find (\<lambda>t. tempId t = sid) (batchList st) = Some S"
    and "find (\<lambda>t. tempId t = tid) (batchList st) = Some T"
    and "tid \<noteq> sid"
  shows "find (\<lambda>t. tempId t = tid) (batchList (handleSelectBatchMergeTarget tid True st))
           = Some (updatedTarget S T)"
    and "S \<notin> set (batchList (handleSelectBatchMergeTarget tid True st))"
    and "\<forall>t \<in> set (batchList (handleSelectBatchMergeTarget tid True st)). tempId t \<noteq> sid"
proof -
  let ?st' = "handleSelectBatchMergeTarget tid True st"
  have bl: "batchList ?st' = map (\<lambda>t. if tempId t = tid then updatedTarget S T else t)
               (filter (\<lambda>t. tempId t \<noteq> sid) (batchList st))"
    using assms(1-4) by (rule select_unsaved_batchList)
  have S: "tempId S = sid" "S \<in> set (batchList st)"
    using find_Some_D [OF assms(3)] by simp_all
  have T: "tempId T = tid" "T \<in> set (batchList st)"
    using find_Some_D [OF assms(4)] by simp_all
  have ex: "\<exists>x\<in>set (filter (\<lambda>t. tempId t \<noteq> sid) (batchList st)). tempId x = tid"
    using T assms(5) by (intro bexI [of _ T]) simp_all
  have tu: "tempId (updatedTarget S T) = tid" using T(1) by simp
  show "find (\<lambda>t. tempId t = tid) (batchList ?st') = Some (updatedTarget S T)"
    unfolding bl by (rule find_replace [OF ex tu])
  show no_sid: "\<forall>t \<in> set (batchList ?st'). tempId t \<noteq> sid"
    unfolding bl by (rule replace_no_source [OF tu assms(5)])
  show "S \<notin> set (batchList ?st')" using no_sid S(1) by blast
qed

subsection \<open>Merging two staged items of the same type\<close>

text \<open>
  C1. Let \<open>S\<close> be the active source and \<open>T\<close> another item of the batch list, of the same
  type. Selecting \<open>T\<close> as unsaved target rewrites the list to the list without the items
  carrying the source's \<open>tempId\<close>, with \<open>T\<close> replaced by the updated target. Its amount is
  \<open>T.amount + S.amount\<close>, its note is \<open>S.note\<close> when \<open>T.note\<close> is empty and
  \<open>T.note + " + " + S.note\<close> otherwise, its children are \<open>T\<close>'s children followed by \<open>S\<close>,
  and \<open>S\<close> is no longer in the list.
\<close>

theorem merge_same_type:
  assumes "activeBatchTempId st = Some sid" and "sid \<noteq> []"
    and "find (\<lambda>t. tempId t = sid) (batchList st) = Some S"
    and "find (\<lambda>t. tempId t = tid) (batchList st) = Some T"
    and "tid \<noteq> sid"
    and "type (rest S) = type (rest T)"
  shows "batchList (handleSelectBatchMergeTarget tid True st) =
           map (\<lambda>t. if tempId t = tid then updatedTarget S T else t)
               (filter (\<lambda>t. tempId t \<noteq> sid) (batchList st))
       \<and> find (\<lambda>t. tempId t = tid) (batchList (handleSelectBatchMergeTarget tid True st))
           = Some (updatedTarget S T)
       \<and> amount (rest (updatedTarget S T)) = amount (rest T) + amount (rest S)
       \<and> note (rest (updatedTarget S T)) =
           (if note (rest T) = [] then note (rest S) else note (rest T) @ '' + '' @ note (rest S))
       \<and> mergedChildren (updatedTarget S T) = Some (children T @ [S])
       \<and> S \<notin> set (batchList (handleSelectBatchMergeTarget tid True st))
       \<and> (\<forall>t \<in> set (batchList (handleSelectBatchMergeTarget tid True st)). tempId t \<noteq> sid)"
proof -
  have am: "amount (rest (updatedTarget S T)) = amount (rest T) + amount (rest S)"
    using assms(6) by (simp add: updatedTarget_def Let_def)
  have nt: "note (rest (updatedTarget S T)) =
           (if note (rest T) = [] then note (rest S) else note (rest T) @ '' + '' @ note (rest S))"
    using assms(6) by (simp add: updatedTarget_def Let_def)
  have mc: "mergedChildren (updatedTarget S T) = Some (children T @ [S])" by simp
  show ?thesis
    by (intro conjI select_unsaved_batchList [OF assms(1-4)]
          select_unsaved_effect [OF assms(1-5)] am nt mc)
qed

theorem merge_same_type_witness:
  "batchList (handleSelectBatchMergeTarget ''t2'' True exMergeState) =
     [BatchTransaction \<lparr>amount = 150, type = expense, categoryId = ''1'', date = ''2024-01-02'',
        note = ''taxi + lunch''\<rparr> ''t2'' None (Some [exA]) (Some 50) (Some ''taxi'')]
   \<and> exA \<notin> set (batchList (handleSelectBatchMergeTarget ''t2'' True exMergeState))"
  using merge_same_type [of exMergeState "''t1''" exA "''t2''" exB]
  by (simp add: exMergeState_def exA_def exB_def updatedTarget_def baseTarget_def children_def)

subsection \<open>Offsetting two staged items of opposite types\<close>

lemma select_unsaved_no_new_item:
  assumes "activeBatchTempId st = Some sid" and "sid \<noteq> []"
    and "find (\<lambda>t. tempId t = sid) (batchList st) = Some S"
    and "find (\<lambda>t. tempId t = tid) (batchList st) = Some T"
  shows "\<forall>t \<in> set (batchList (handleSelectBatchMergeTarget tid True st)).
           t = updatedTarget S T \<or> t \<in> set (batchList st)"
    and "length (batchList (handleSelectBatchMergeTarget tid True st)) < length (batchList st)"
proof -
  let ?st' = "handleSelectBatchMergeTarget tid True st"
  have bl: "batchList ?st' = map (\<lambda>t. if tempId t = tid then updatedTarget S T else t)
               (filter (\<lambda>t. tempId t \<noteq> sid) (batchList st))"
    using assms by (rule select_unsaved_batchList)
  show "\<forall>t \<in> set (batchList ?st'). t = updatedTarget S T \<or> t \<in> set (batchList st)"
  proof
    fix t assume "t \<in> set (batchList ?st')"
    then have "t = updatedTarget S T \<or> t \<in> set (filter (\<lambda>t. tempId t \<noteq> sid) (batchList st))"
      unfolding bl by (rule in_replaced)
    then show "t = updatedTarget S T \<or> t \<in> set (batchList st)" by auto
  qed
  have S: "tempId S = sid" "S \<in> set (batchList st)"
    using find_Some_D [OF assms(3)] by simp_all
  have "length (filter (\<lambda>t. tempId t \<noteq> sid) (batchList st)) < length (batchList st)"
    using S by (intro length_filter_less [of S]) simp_all
  then show "length (batchList ?st') < length (batchList st)"
    unfolding bl by simp
qed

text \<open>
  C2. Let \<open>S\<close> be the active source and \<open>T\<close> another item of the batch list, of the
  other type. Selecting \<open>T\<close> as unsaved target leaves \<open>T\<close> with the amount
  \<open>T.amount - S.amount\<close> when \<open>T.amount >= S.amount\<close> and with 0 otherwise, never a
  negative one; its note gets the offset annotation, its children are \<open>T\<close>'s children
  followed by \<open>S\<close>, and \<open>S\<close> leaves the list. The list gets no other item: each of its
  items is the updated target or was in the list before, and the list is shorter than
  before, so nothing carries the excess.
\<close>

theorem offset_opposite_type:
  assumes "activeBatchTempId st = Some sid" and "sid \<noteq> []"
    and "find (\<lambda>t. tempId t = sid) (batchList st) = Some S"
    and "find (\<lambda>t. tempId t = tid) (batchList st) = Some T"
    and "tid \<noteq> sid"
    and "type (rest S) \<noteq> type (rest T)"
  shows "batchList (handleSelectBatchMergeTarget tid True st) =
           map (\<lambda>t. if tempId t = tid then updatedTarget S T else t)
               (filter (\<lambda>t. tempId t \<noteq> sid) (batchList st))
       \<and> find (\<lambda>t. tempId t = tid) (batchList (handleSelectBatchMergeTarget tid True st))
           = Some (updatedTarget S T)
       \<and> amount (rest (updatedTarget S T)) =
           (if amount (rest T) \<ge> amount (rest S) then amount (rest T) - amount (rest S) else 0)
       \<and> 0 \<le> amount (rest (updatedTarget S T))
       \<and> note (rest (updatedTarget S T)) = note (rest T) @ offsetNote S
       \<and> mergedChildren (updatedTarget S T) = Some (children T @ [S])
       \<and> S \<notin> set (batchList (handleSelectBatchMergeTarget tid True st))
       \<and> (\<forall>t \<in> set (batchList (handleSelectBatchMergeTarget tid True st)). tempId t \<noteq> sid)
       \<and> (\<forall>t \<in> set (batchList (handleSelectBatchMergeTarget tid True st)).
             t = updatedTarget S T \<or> t \<in> set (batchList st))
       \<and> length (batchList (handleSelectBatchMergeTarget tid True st)) < length (batchList st)"
proof -
  have am: "amount (rest (updatedTarget S T)) =
           (if amount (rest T) \<ge> amount (rest S) then amount (rest T) - amount (rest S) else 0)"
    using assms(6) by (simp add: updatedTarget_def Let_def)
  have nn: "0 \<le> amount (rest (updatedTarget S T))"
    using assms(6) by (simp add: updatedTarget_def Let_def)
  have nt: "note (rest (updatedTarget S T)) = note (rest T) @ offsetNote S"
    using assms(6) by (simp add: updatedTarget_def Let_def)
  have mc: "mergedChildren (updatedTarget S T) = Some (children T @ [S])" by simp
  show ?thesis
    by (intro conjI select_unsaved_batchList [OF assms(1-4)]
          select_unsaved_effect [OF assms(1-5)] select_unsaved_no_new_item [OF assms(1-4)]
          am nn nt mc)
qed

theorem offset_opposite_type_witness:
  "map (\<lambda>t. (tempId t, amount (rest t))) (batchList (handleSelectBatchMergeTarget ''t2'' True exOffsetState))
     = [(''t2'', 0)]
   \<and> mergedChildren (updatedTarget exI exB) = Some [exI]
   \<and> exI \<notin> set (batchList (handleSelectBatchMergeTarget ''t2'' True exOffsetState))"
  using offset_opposite_type [of exOffsetState "''t3''" exI "''t2''" exB]
  by (simp add: exOffsetState_def exI_def exB_def updatedTarget_def baseTarget_def children_def)

subsection \<open>Saving with a merge target: what the store holds afterwards\<close>

lemma addTransaction_merge:
  assumes "m \<noteq> []"
  shows "addTransaction transactions now [newTrans] (Some m) =
           filter (\<lambda>t. amount t > 0)
                  (map (\<lambda>t. if id_tx t = m then updateTarget newTrans t else t) transactions)
           @ (case find (\<lambda>t. id_tx t = m) transactions of
                Some target \<Rightarrow>
                  if amount newTrans > amount target
                  then [remainderTrans now newTrans target] else []
              | None \<Rightarrow> [])"
  using assms by (simp add: addTransaction_def Let_def split: option.splits)

lemma amount_remainderTrans [simp]:
  "amount (remainderTrans now newTrans target) = amount newTrans - amount target"
  by (simp add: remainderTrans_def)

lemma addTransaction_merge_positive:
  assumes "m \<noteq> []" and "t \<in> set (addTransaction transactions now [newTrans] (Some m))"
  shows "amount t > 0"
proof -
  from assms(2) have "t \<in> set (filter (\<lambda>t. amount t > 0)
                  (map (\<lambda>t. if id_tx t = m then updateTarget newTrans t else t) transactions))
     \<or> t \<in> set (case find (\<lambda>t. id_tx t = m) transactions of
                Some target \<Rightarrow>
                  if amount newTrans > amount target
                  then [remainderTrans now newTrans target] else []
              | None \<Rightarrow> [])"
    unfolding addTransaction_merge [OF assms(1)] by simp
  then show ?thesis
  proof
    assume "t \<in> set (filter (\<lambda>t. amount t > 0)
                  (map (\<lambda>t. if id_tx t = m then updateTarget newTrans t else t) transactions))"
    then show ?thesis by simp
  next
    assume "t \<in> set (case find (\<lambda>t. id_tx t = m) transactions of
                Some target \<Rightarrow>
                  if amount newTrans > amount target
                  then [remainderTrans now newTrans target] else []
              | None \<Rightarrow> [])"
    then show ?thesis by (auto split: option.splits if_splits)
  qed
qed

lemma amount_updateTarget:
  "amount (updateTarget newTrans t) =
     (if amount t - amount newTrans \<le> 0 then 0 else amount t - amount newTrans)"
  by (simp add: updateTarget_def Let_def)

lemma kept_record_origin:
  assumes "t \<in> set (filter (\<lambda>t. amount t > 0)
                  (map (\<lambda>t. if id_tx t = m then updateTarget newTrans t else t) transactions))"
  shows "\<exists>x \<in> set transactions. t = (if id_tx x = m then updateTarget newTrans x else x)
            \<and> amount t > 0"
proof -
  from assms have a: "amount t > 0"
    and im: "t \<in> (\<lambda>t. if id_tx t = m then updateTarget newTrans t else t) ` set transactions"
    by simp_all
  from im obtain x where "x \<in> set transactions"
    and "t = (if id_tx x = m then updateTarget newTrans x else x)"
    by (rule imageE)
  with a show ?thesis by blast
qed

lemma fully_offset_ids_gone:
  assumes all: "\<forall>x \<in> set transactions. id_tx x = m \<longrightarrow> amount x \<le> amount newTrans"
    and t: "t \<in> set (filter (\<lambda>t. amount t > 0)
                  (map (\<lambda>t. if id_tx t = m then updateTarget newTrans t else t) transactions))"
  shows "id_tx t \<noteq> m"
proof -
  from kept_record_origin [OF t] obtain x where x: "x \<in> set transactions"
    and tx: "t = (if id_tx x = m then updateTarget newTrans x else x)"
    and pos: "amount t > 0" by blast
  show ?thesis
  proof (cases "id_tx x = m")
    case True
    then have "amount x \<le> amount newTrans" using all x by blast
    then have "amount (updateTarget newTrans x) = 0" by (simp add: amount_updateTarget)
    moreover have "t = updateTarget newTrans x" using tx True by simp
    ultimately show ?thesis using pos by simp
  next
    case False
    then have "t = x" using tx by simp
    then show ?thesis using False by simp
  qed
qed

text \<open>
  C10. A save that carries a (truthy) merge target id hands one transaction to
  \<open>addTransaction\<close>. The array it stores is the old store with the offset applied to
  every record carrying the target id, cut down to the records with a positive amount,
  followed by the remainder record when the source exceeds the target. So every record
  of the store has a positive amount afterwards. A target whose amount does not exceed
  the source's is rewritten to amount 0 and that record is not kept: when no record
  with the target id has a larger amount than the source, the only record of the store
  that can carry the target id afterwards is the appended remainder. Every record that
  was stored with an amount of 0 or less is dropped as well, whether or not it is the
  target.
\<close>

theorem merge_save_leaves_no_zero_amount:
  assumes "m \<noteq> []"
  shows "addTransaction transactions now [newTrans] (Some m) =
           filter (\<lambda>t. amount t > 0)
                  (map (\<lambda>t. if id_tx t = m then updateTarget newTrans t else t) transactions)
           @ (case find (\<lambda>t. id_tx t = m) transactions of
                Some target \<Rightarrow>
                  if amount newTrans > amount target
                  then [remainderTrans now newTrans target] else []
              | None \<Rightarrow> [])
       \<and> (\<forall>t \<in> set (addTransaction transactions now [newTrans] (Some m)). amount t > 0)
       \<and> (\<forall>t \<in> set transactions. id_tx t = m \<and> amount t \<le> amount newTrans \<longrightarrow>
             amount (updateTarget newTrans t) = 0
             \<and> updateTarget newTrans t \<notin> set (addTransaction transactions now [newTrans] (Some m)))
       \<and> ((\<forall>x \<in> set transactions. id_tx x = m \<longrightarrow> amount x \<le> amount newTrans) \<longrightarrow>
            (\<forall>t \<in> set (addTransaction transactions now [newTrans] (Some m)). id_tx t = m \<longrightarrow>
               t \<in> set (case find (\<lambda>t. id_tx t = m) transactions of
                          Some target \<Rightarrow>
                            if amount newTrans > amount target
                            then [remainderTrans now newTrans target] else []
                        | None \<Rightarrow> [])))
       \<and> (\<forall>t \<in> set transactions. amount t \<le> 0 \<longrightarrow>
             t \<notin> set (addTransaction transactions now [newTrans] (Some m)))"
proof (intro conjI ballI impI)
  show "addTransaction transactions now [newTrans] (Some m) =
           filter (\<lambda>t. amount t > 0)
                  (map (\<lambda>t. if id_tx t = m then updateTarget newTrans t else t) transactions)
           @ (case find (\<lambda>t. id_tx t = m) transactions of
                Some target \<Rightarrow>
                  if amount newTrans > amount target
                  then [remainderTrans now newTrans target] else []
              | None \<Rightarrow> [])"
    by (rule addTransaction_merge [OF assms])
next
  fix t assume "t \<in> set (addTransaction transactions now [newTrans] (Some m))"
  then show "amount t > 0" by (rule addTransaction_merge_positive [OF assms])
next
  fix t assume "t \<in> set transactions" and "id_tx t = m \<and> amount t \<le> amount newTrans"
  then show z: "amount (updateTarget newTrans t) = 0" by (simp add: amount_updateTarget)
  show "updateTarget newTrans t \<notin> set (addTransaction transactions now [newTrans] (Some m))"
  proof
    assume "updateTarget newTrans t \<in> set (addTransaction transactions now [newTrans] (Some m))"
    then have "amount (updateTarget newTrans t) > 0" by (rule addTransaction_merge_positive [OF assms])
    with z show False by simp
  qed
next
  fix t
  assume all: "\<forall>x \<in> set transactions. id_tx x = m \<longrightarrow> amount x \<le> amount newTrans"
    and t: "t \<in> set (addTransaction transactions now [newTrans] (Some m))"
    and idm: "id_tx t = m"
  let ?kept = "filter (\<lambda>t. amount t > 0)
                  (map (\<lambda>t. if id_tx t = m then updateTarget newTrans t else t) transactions)"
  let ?rem = "case find (\<lambda>t. id_tx t = m) transactions of
                Some target \<Rightarrow>
                  if amount newTrans > amount target
                  then [remainderTrans now newTrans target] else []
              | None \<Rightarrow> []"
  have "t \<in> set (?kept @ ?rem)" using t unfolding addTransaction_merge [OF assms] .
  then have "t \<in> set ?kept \<or> t \<in> set ?rem" by simp
  moreover have "t \<notin> set ?kept" using fully_offset_ids_gone [OF all] idm by blast
  ultimately show "t \<in> set ?rem" by blast
next
  fix t assume "t \<in> set transactions" and le: "amount t \<le> 0"
  show "t \<notin> set (addTransaction transactions now [newTrans] (Some m))"
  proof
    assume "t \<in> set (addTransaction transactions now [newTrans] (Some m))"
    then have "amount t > 0" by (rule addTransaction_merge_positive [OF assms])
    with le show False by simp
  qed
qed

theorem merge_save_leaves_no_zero_amount_witness:
  "list_all (\<lambda>x. id_tx x = ''1'' \<longrightarrow> amount x \<le> amount exNew) exStoreZero
   \<and> list_all (\<lambda>t. amount t > 0) (addTransaction exStoreZero 1700 [exNew] (Some ''1''))
   \<and> map id_tx (addTransaction exStoreZero 1700 [exNew] (Some ''1'')) = [''1700'']
   \<and> map amount (addTransaction exStoreZero 1700 [exNew] (Some ''1'')) = [20]"
proof -
  have m: "''1'' \<noteq> []" by simp
  note eq = merge_save_leaves_no_zero_amount [OF m, of exStoreZero 1700 exNew, THEN conjunct1]
  show ?thesis
    unfolding eq
    by (simp add: exStoreZero_def exStore_def exNew_def updateTarget_def
          remainderTrans_def Let_def dec_nat.simps)
qed

text \<open>
  C3, as the code has it. A single new transaction is saved against a persisted target
  (the first record with the target id) whose amount it exceeds. The target is rewritten
  to amount 0 with the full-offset annotation appended to its note, but the stored array
  keeps only records with a positive amount, so this record is not in the store
  afterwards. The store ends with the remainder record: amount
  \<open>source.amount - target.amount\<close>, type, category and date of the source, and the
  source's note with the remainder annotation.
\<close>

theorem single_save_overshoot:
  assumes "m \<noteq> []"
    and "find (\<lambda>t. id_tx t = m) transactions = Some target"
    and "amount newTrans > amount target"
  shows "addTransaction transactions now [newTrans] (Some m) =
           filter (\<lambda>t. amount t > 0)
                  (map (\<lambda>t. if id_tx t = m then updateTarget newTrans t else t) transactions)
           @ [remainderTrans now newTrans target]
       \<and> amount (remainderTrans now newTrans target) = amount newTrans - amount target
       \<and> type (remainderTrans now newTrans target) = type newTrans
       \<and> categoryId (remainderTrans now newTrans target) = categoryId newTrans
       \<and> note (remainderTrans now newTrans target) =
           note newTrans @ '' ('' @ txt_offset_remainder @ '')''
       \<and> amount (updateTarget newTrans target) = 0
       \<and> note (updateTarget newTrans target) =
           note target @ '' ('' @ txt_fully_offset @ '': '' @ offsetTypeStr newTrans @ '' ''
             @ show_num (amount newTrans) @ '')''
       \<and> updateTarget newTrans target \<notin> set (addTransaction transactions now [newTrans] (Some m))"
proof -
  have eq: "addTransaction transactions now [newTrans] (Some m) =
           filter (\<lambda>t. amount t > 0)
                  (map (\<lambda>t. if id_tx t = m then updateTarget newTrans t else t) transactions)
           @ [remainderTrans now newTrans target]"
    unfolding addTransaction_merge [OF assms(1)] using assms(2,3) by simp
  have z: "amount (updateTarget newTrans target) = 0"
    using assms(3) by (simp add: amount_updateTarget)
  have nt: "note (updateTarget newTrans target) =
           note target @ '' ('' @ txt_fully_offset @ '': '' @ offsetTypeStr newTrans @ '' ''
             @ show_num (amount newTrans) @ '')''"
    using assms(3) by (simp add: updateTarget_def Let_def)
  have gone: "updateTarget newTrans target \<notin> set (addTransaction transactions now [newTrans] (Some m))"
  proof
    assume "updateTarget newTrans target \<in> set (addTransaction transactions now [newTrans] (Some m))"
    then have "amount (updateTarget newTrans target) > 0"
      by (rule addTransaction_merge_positive [OF assms(1)])
    with z show False by simp
  qed
  have r: "amount (remainderTrans now newTrans target) = amount newTrans - amount target"
    "type (remainderTrans now newTrans target) = type newTrans"
    "categoryId (remainderTrans now newTrans target) = categoryId newTrans"
    "note (remainderTrans now newTrans target) = note newTrans @ '' ('' @ txt_offset_remainder @ '')''"
    by (simp_all add: remainderTrans_def)
  show ?thesis by (intro conjI eq r z nt gone)
qed

theorem single_save_overshoot_witness:
  "length (addTransaction exStore 1700 [exNew] (Some ''1'')) = 1
   \<and> amount (last (addTransaction exStore 1700 [exNew] (Some ''1''))) = 20
   \<and> type (last (addTransaction exStore 1700 [exNew] (Some ''1''))) = expense
   \<and> amount (updateTarget exNew (exStore ! 0)) = 0
   \<and> updateTarget exNew (exStore ! 0) \<notin> set (addTransaction exStore 1700 [exNew] (Some ''1''))"
  using single_save_overshoot [of "''1''" exStore "exStore ! 0" exNew 1700]
  by (simp add: exStore_def exNew_def updateTarget_def remainderTrans_def)

text \<open>
  The claim as stated, at the scenario of the specification: a new expense of 120
  against a persisted income of 100. The store afterwards holds the remainder of 20 and
  nothing else; the target is not there with amount 0.
\<close>

theorem single_save_overshoot_counterexample:
  "addTransaction exStore 1700 [exNew] (Some ''1'') =
     [\<lparr>amount = 20, type = expense, categoryId = ''1'', date = ''2024-01-05'',
       note = ''rent ('' @ txt_offset_remainder @ '')'', id_tx = ''1700''\<rparr>]"
  by (simp add: addTransaction_def exStore_def exNew_def updateTarget_def
        remainderTrans_def Let_def dec_nat.simps)

subsection \<open>The calls of a save and the store they leave\<close>

lemma commitCalls_last:
  "commitCalls transactions clock k cs pending =
     (if cs = [] then pending
      else addTransaction transactions (clock (k + length cs - 1)) (fst (last cs)) (snd (last cs)))"
proof (induction cs arbitrary: k pending)
  case Nil
  then show ?case by simp
next
  case (Cons c cs)
  obtain news m where c: "c = (news, m)" by (cases c)
  show ?case
  proof (cases "cs = []")
    case True
    then show ?thesis by (simp add: c)
  next
    case False
    then show ?thesis using Cons.IH [of "Suc k"] by (simp add: c)
  qed
qed

lemma amount_withId [simp]: "amount (withId i t) = amount t"
  by (simp add: withId_def)

lemma addTransaction_plain:
  "\<not> truthy m \<Longrightarrow>
   addTransaction transactions now news m =
     transactions @ map (\<lambda>(index, t). withId (dec_nat (now + index)) t) (enumerate 0 news)"
  by (simp add: addTransaction_def)

lemma in_enumerate_snd: "p \<in> set (enumerate n xs) \<Longrightarrow> snd p \<in> set xs"
  by (cases p) (auto simp: in_set_enumerate_eq)

lemma addTransaction_new_positive:
  assumes pos: "\<forall>d \<in> set news. amount d > 0"
    and t: "t \<in> set (addTransaction transactions now news m)"
  shows "t \<in> set transactions \<or> amount t > 0"
proof (cases "truthy m \<and> length news = 1")
  case True
  then obtain s where m: "m = Some s" "s \<noteq> []" by (cases m) auto
  from True obtain d where news: "news = [d]" by (cases news) auto
  have "amount t > 0"
    using t unfolding m news by (rule addTransaction_merge_positive [OF m(2)])
  then show ?thesis ..
next
  case False
  then have "addTransaction transactions now news m =
     transactions @ map (\<lambda>(index, t). withId (dec_nat (now + index)) t) (enumerate 0 news)"
    by (auto simp: addTransaction_def)
  with t have "t \<in> set transactions
     \<or> t \<in> set (map (\<lambda>(index, t). withId (dec_nat (now + index)) t) (enumerate 0 news))"
    by simp
  then show ?thesis
  proof
    assume "t \<in> set transactions" then show ?thesis ..
  next
    assume "t \<in> set (map (\<lambda>(index, t). withId (dec_nat (now + index)) t) (enumerate 0 news))"
    then obtain p where p: "p \<in> set (enumerate 0 news)"
      and tp: "t = (\<lambda>(index, t). withId (dec_nat (now + index)) t) p" by auto
    have "snd p \<in> set news" using p by (rule in_enumerate_snd)
    then have "amount (snd p) > 0" using pos by simp
    then have "amount t > 0" unfolding tp by (cases p) simp
    then show ?thesis ..
  qed
qed

lemma commitCalls_new_positive:
  assumes "\<forall>c \<in> set cs. \<forall>d \<in> set (fst c). amount d > 0"
    and "t \<in> set (commitCalls transactions clock k cs transactions)"
  shows "t \<in> set transactions \<or> amount t > 0"
proof (cases "cs = []")
  case True
  then show ?thesis using assms(2) by simp
next
  case False
  then have l: "last cs \<in> set cs" by simp
  have pos: "\<forall>d \<in> set (fst (last cs)). amount d > 0" using assms(1) l by blast
  have "t \<in> set (addTransaction transactions (clock (k + length cs - 1)) (fst (last cs)) (snd (last cs)))"
    using assms(2) False by (simp add: commitCalls_last)
  with pos show ?thesis by (rule addTransaction_new_positive)
qed

lemma saveAll_calls_positive:
  "\<forall>c \<in> set (onSaveCalls (handleSaveAllBatch st)). \<forall>d \<in> set (fst c). amount d > 0"
  by (auto simp: handleSaveAllBatch_def regularItems_def mergedItems_def validItems_def)

lemma saveSingle_calls_positive:
  "\<forall>c \<in> set (onSaveCalls (handleSaveSingleBatchItem tid st)). \<forall>d \<in> set (fst c). amount d > 0"
  by (auto simp: handleSaveSingleBatchItem_def split: option.splits)

subsection \<open>Items with a non-positive amount\<close>

text \<open>
  C9, as the code has it. No save path of the batch list hands an item with an amount of
  0 or less to the store: every transaction in every \<open>onSave\<close> call of save-all and of
  the single-item save has a positive amount, and every record of the store afterwards
  was in the store before or has a positive amount. Save-all reports the validation
  failure exactly when the list is not empty and none of its items is valid; when some
  item is valid, the others are dropped without a report.
\<close>

theorem save_discards_non_positive:
  "(\<forall>c \<in> set (onSaveCalls (handleSaveAllBatch st)). \<forall>d \<in> set (fst c). amount d > 0)
   \<and> (\<forall>c \<in> set (onSaveCalls (handleSaveSingleBatchItem tid st)). \<forall>d \<in> set (fst c). amount d > 0)
   \<and> (\<forall>t \<in> set (saveAllStore transactions clock st). t \<in> set transactions \<or> amount t > 0)
   \<and> (\<forall>t \<in> set (saveSingleItemStore transactions clock tid st).
         t \<in> set transactions \<or> amount t > 0)
   \<and> toast (nextState (handleSaveAllBatch st)) =
       (if validItems (batchList st) = [] \<and> batchList st \<noteq> []
        then Some (txt_amount_must_be_positive, error) else toast st)"
proof (intro conjI)
  show "\<forall>c \<in> set (onSaveCalls (handleSaveAllBatch st)). \<forall>d \<in> set (fst c). amount d > 0"
    by (rule saveAll_calls_positive)
  show "\<forall>c \<in> set (onSaveCalls (handleSaveSingleBatchItem tid st)). \<forall>d \<in> set (fst c). amount d > 0"
    by (rule saveSingle_calls_positive)
  show "\<forall>t \<in> set (saveAllStore transactions clock st). t \<in> set transactions \<or> amount t > 0"
    unfolding saveAllStore_def
    using commitCalls_new_positive [OF saveAll_calls_positive] by blast
  show "\<forall>t \<in> set (saveSingleItemStore transactions clock tid st).
         t \<in> set transactions \<or> amount t > 0"
    unfolding saveSingleItemStore_def
    using commitCalls_new_positive [OF saveSingle_calls_positive] by blast
  show "toast (nextState (handleSaveAllBatch st)) =
       (if validItems (batchList st) = [] \<and> batchList st \<noteq> []
        then Some (txt_amount_must_be_positive, error) else toast st)"
    by (simp add: handleSaveAllBatch_def showToast_def)
qed

theorem save_discards_non_positive_witness:
  "onSaveCalls (handleSaveAllBatch (exBatch [exZ, exB])) = [([rest exB], None)]
   \<and> map amount (saveAllStore exStore exClock (exBatch [exZ, exB])) = [100, 50]
   \<and> toast (nextState (handleSaveAllBatch (exBatch [exZ]))) = Some (txt_amount_must_be_positive, error)
   \<and> onSaveCalls (handleSaveSingleBatchItem ''t4'' (exBatch [exZ, exB])) = []"
  using save_discards_non_positive [of "exBatch [exZ, exB]" "''t4''" exStore exClock]
  by (simp add: handleSaveAllBatch_def handleSaveSingleBatchItem_def saveAllStore_def
        exBatch_def exZ_def exB_def exStore_def exClock_def validItems_def regularItems_def
        mergedItems_def addTransaction_def showToast_def withId_def)

text \<open>
  The claim as stated, on a list with one valid item and one empty row: the discard set
  and the list are both non-empty, the valid item is saved, and no toast is set.
\<close>

theorem save_discards_non_positive_counterexample:
  "validItems (batchList (exBatch [exB, exZ])) = [exB]
   \<and> onSaveCalls (handleSaveAllBatch (exBatch [exB, exZ])) = [([rest exB], None)]
   \<and> toast (nextState (handleSaveAllBatch (exBatch [exB, exZ]))) = None"
  by (simp add: handleSaveAllBatch_def exBatch_def exZ_def exB_def validItems_def
        regularItems_def mergedItems_def)

subsection \<open>Save-all and the remainder\<close>

lemma saveAll_calls_one_merged:
  assumes "mergedItems (batchList st) = [S]"
  shows "onSaveCalls (handleSaveAllBatch st) =
           (if regularItems (batchList st) = [] then []
            else [(map rest (regularItems (batchList st)), None)])
           @ [([rest S], mergeTargetId S)]"
proof -
  have "S \<in> set (mergedItems (batchList st))" using assms by simp
  then have "S \<in> set (validItems (batchList st))" by (simp add: mergedItems_def)
  then have "validItems (batchList st) \<noteq> []" by auto
  then show ?thesis by (simp add: handleSaveAllBatch_def assms)
qed

text \<open>
  C6, as the code has it. Save-all commits an offsetting item through the same
  \<open>addTransaction\<close> call as the single-entry flow. When the batch list holds one valid
  item with a merge target id, the target is in the store and the item's amount exceeds
  the target's, the store ends with a remainder record of amount
  \<open>source.amount - target.amount\<close>.
\<close>

theorem save_all_creates_remainder:
  assumes "mergedItems (batchList st) = [S]"
    and "mergeTargetId S = Some m"
    and "find (\<lambda>t. id_tx t = m) transactions = Some target"
    and "amount (rest S) > amount target"
  shows "saveAllStore transactions clock st \<noteq> []
       \<and> last (saveAllStore transactions clock st) =
           remainderTrans (clock (if regularItems (batchList st) = [] then 0 else 1)) (rest S) target
       \<and> amount (last (saveAllStore transactions clock st)) = amount (rest S) - amount target
       \<and> type (last (saveAllStore transactions clock st)) = type (rest S)
       \<and> categoryId (last (saveAllStore transactions clock st)) = categoryId (rest S)"
proof -
  let ?k = "if regularItems (batchList st) = [] then 0 else 1 :: nat"
  have "S \<in> set (mergedItems (batchList st))" using assms(1) by simp
  then have "truthy (mergeTargetId S)" by (simp add: mergedItems_def)
  then have m: "m \<noteq> []" using assms(2) by simp
  have "saveAllStore transactions clock st =
          addTransaction transactions (clock ?k) [rest S] (Some m)"
    unfolding saveAllStore_def saveAll_calls_one_merged [OF assms(1)]
    by (simp add: commitCalls_last assms(2))
  also have "\<dots> = filter (\<lambda>t. amount t > 0)
                  (map (\<lambda>t. if id_tx t = m then updateTarget (rest S) t else t) transactions)
           @ [remainderTrans (clock ?k) (rest S) target]"
    unfolding addTransaction_merge [OF m] using assms(3,4) by simp
  finally have eq: "saveAllStore transactions clock st =
      filter (\<lambda>t. amount t > 0)
             (map (\<lambda>t. if id_tx t = m then updateTarget (rest S) t else t) transactions)
      @ [remainderTrans (clock ?k) (rest S) target]" .
  have ne: "saveAllStore transactions clock st \<noteq> []" unfolding eq by simp
  have l: "last (saveAllStore transactions clock st) = remainderTrans (clock ?k) (rest S) target"
    unfolding eq by simp
  have r: "amount (remainderTrans (clock ?k) (rest S) target) = amount (rest S) - amount target"
    "type (remainderTrans (clock ?k) (rest S) target) = type (rest S)"
    "categoryId (remainderTrans (clock ?k) (rest S) target) = categoryId (rest S)"
    by (simp_all add: remainderTrans_def)
  show ?thesis using ne l r by simp
qed

theorem save_all_creates_remainder_witness:
  "amount (last (saveAllStore exStore exClock (exBatch [exOffsetting]))) = 20
   \<and> type (last (saveAllStore exStore exClock (exBatch [exOffsetting]))) = expense"
  using save_all_creates_remainder [of "exBatch [exOffsetting]" exOffsetting "''1''" exStore
          "exStore ! 0" exClock]
  by (simp add: exBatch_def exOffsetting_def exNew_def exStore_def mergedItems_def
        validItems_def remainderTrans_def)

text \<open>
  The claim as stated, on a batch list with the one offsetting item of 120 against the
  persisted income of 100: after save-all the store holds a remainder record of 20.
\<close>

theorem save_all_creates_remainder_counterexample:
  "saveAllStore exStore exClock (exBatch [exOffsetting]) =
     [\<lparr>amount = 20, type = expense, categoryId = ''1'', date = ''2024-01-05'',
       note = ''rent ('' @ txt_offset_remainder @ '')'', id_tx = ''1700''\<rparr>]"
  by (simp add: saveAllStore_def handleSaveAllBatch_def exBatch_def exOffsetting_def exNew_def
        exStore_def exClock_def validItems_def regularItems_def mergedItems_def
        addTransaction_def updateTarget_def remainderTrans_def Let_def dec_nat.simps)

subsection \<open>Save-all: plain inserts and merge calls\<close>

lemma validItems_all:
  "\<forall>t \<in> set bl. amount (rest t) > 0 \<Longrightarrow> validItems bl = bl"
  by (simp add: validItems_def)

lemma plainRecords_merge_calls:
  "plainRecords (map (\<lambda>item. ([rest item], mergeTargetId item))
                     (filter (\<lambda>t. truthy (mergeTargetId t)) xs)) = []"
  by (induction xs) (simp_all add: plainRecords_def)

lemma mergeCalls_merge_calls:
  "mergeCalls (map (\<lambda>item. ([rest item], mergeTargetId item))
                   (filter (\<lambda>t. truthy (mergeTargetId t)) xs))
   = map (\<lambda>item. ([rest item], mergeTargetId item)) (filter (\<lambda>t. truthy (mergeTargetId t)) xs)"
  by (induction xs) (simp_all add: mergeCalls_def)

lemma plainRecords_append: "plainRecords (xs @ ys) = plainRecords xs @ plainRecords ys"
  by (simp add: plainRecords_def)

lemma mergeCalls_append: "mergeCalls (xs @ ys) = mergeCalls xs @ mergeCalls ys"
  by (simp add: mergeCalls_def)

lemma saveAll_calls_all_valid:
  assumes "\<forall>t \<in> set (batchList st). amount (rest t) > 0" and "batchList st \<noteq> []"
  shows "onSaveCalls (handleSaveAllBatch st) =
           (if filter (\<lambda>t. \<not> truthy (mergeTargetId t)) (batchList st) = [] then []
            else [(map rest (filter (\<lambda>t. \<not> truthy (mergeTargetId t)) (batchList st)), None)])
           @ map (\<lambda>item. ([rest item], mergeTargetId item))
                 (filter (\<lambda>t. truthy (mergeTargetId t)) (batchList st))"
  using assms(2)
  by (simp add: handleSaveAllBatch_def regularItems_def mergedItems_def
        validItems_all [OF assms(1)])

lemma length_filter_compl:
  "length (filter (\<lambda>x. \<not> P x) xs) = length xs - length (filter P xs)"
  using sum_length_filter_compl [of P xs] by simp

text \<open>
  C7, as the code has it. On a non-empty batch list of \<open>N\<close> items, all with positive
  amounts, \<open>M\<close> of them carrying a merge target id, save-all hands \<open>N - M\<close> transactions
  to \<open>onSave\<close> without a merge target and makes \<open>M\<close> calls with a merge target, each
  with one transaction. When \<open>M = 0\<close> the store afterwards is the old store followed by
  \<open>N\<close> new records.
\<close>

theorem save_all_partition:
  assumes "\<forall>t \<in> set (batchList st). amount (rest t) > 0" and "batchList st \<noteq> []"
  shows "length (plainRecords (onSaveCalls (handleSaveAllBatch st))) =
           length (batchList st) - length (filter (\<lambda>t. truthy (mergeTargetId t)) (batchList st))
       \<and> length (mergeCalls (onSaveCalls (handleSaveAllBatch st))) =
           length (filter (\<lambda>t. truthy (mergeTargetId t)) (batchList st))
       \<and> (\<forall>c \<in> set (mergeCalls (onSaveCalls (handleSaveAllBatch st))). length (fst c) = 1)
       \<and> (filter (\<lambda>t. truthy (mergeTargetId t)) (batchList st) = [] \<longrightarrow>
            saveAllStore transactions clock st =
              transactions @ map (\<lambda>(index, t). withId (dec_nat (clock 0 + index)) t)
                                 (enumerate 0 (map rest (batchList st)))
            \<and> length (saveAllStore transactions clock st) =
                length transactions + length (batchList st))"
proof -
  let ?P = "\<lambda>t. truthy (mergeTargetId t)"
  let ?reg = "filter (\<lambda>t. \<not> ?P t) (batchList st)"
  let ?mrg = "filter ?P (batchList st)"
  let ?mc = "map (\<lambda>item. ([rest item], mergeTargetId item)) ?mrg"
  have calls: "onSaveCalls (handleSaveAllBatch st) =
      (if ?reg = [] then [] else [(map rest ?reg, None)]) @ ?mc"
    using assms by (rule saveAll_calls_all_valid)
  have "plainRecords (onSaveCalls (handleSaveAllBatch st)) = map rest ?reg"
    unfolding calls plainRecords_append plainRecords_merge_calls
    by (simp add: plainRecords_def)
  then have p: "length (plainRecords (onSaveCalls (handleSaveAllBatch st))) =
           length (batchList st) - length ?mrg"
    by (simp add: length_filter_compl)
  have mc: "mergeCalls (onSaveCalls (handleSaveAllBatch st)) = ?mc"
    unfolding calls mergeCalls_append mergeCalls_merge_calls
    by (simp add: mergeCalls_def)
  have m: "length (mergeCalls (onSaveCalls (handleSaveAllBatch st))) = length ?mrg"
    unfolding mc by simp
  have one: "\<forall>c \<in> set (mergeCalls (onSaveCalls (handleSaveAllBatch st))). length (fst c) = 1"
    unfolding mc by simp
  have plain: "?mrg = [] \<longrightarrow>
            saveAllStore transactions clock st =
              transactions @ map (\<lambda>(index, t). withId (dec_nat (clock 0 + index)) t)
                                 (enumerate 0 (map rest (batchList st)))
            \<and> length (saveAllStore transactions clock st) =
                length transactions + length (batchList st)"
  proof
    assume none: "?mrg = []"
    then have "\<forall>t \<in> set (batchList st). \<not> ?P t" by (simp add: filter_empty_conv)
    then have reg: "?reg = batchList st" by simp
    have c1: "onSaveCalls (handleSaveAllBatch st) = [(map rest (batchList st), None)]"
      unfolding calls reg none using assms(2) by simp
    have eq: "saveAllStore transactions clock st =
              transactions @ map (\<lambda>(index, t). withId (dec_nat (clock 0 + index)) t)
                                 (enumerate 0 (map rest (batchList st)))"
      unfolding saveAllStore_def c1 by (simp add: addTransaction_plain)
    show "saveAllStore transactions clock st =
              transactions @ map (\<lambda>(index, t). withId (dec_nat (clock 0 + index)) t)
                                 (enumerate 0 (map rest (batchList st)))
            \<and> length (saveAllStore transactions clock st) =
                length transactions + length (batchList st)"
      unfolding eq by simp
  qed
  show ?thesis by (intro conjI p m one plain)
qed

theorem save_all_partition_witness:
  "length (plainRecords (onSaveCalls (handleSaveAllBatch (exBatch [exA, exOffsetting, exB])))) = 2
   \<and> length (mergeCalls (onSaveCalls (handleSaveAllBatch (exBatch [exA, exOffsetting, exB])))) = 1
   \<and> map amount (saveAllStore exStore exClock (exBatch [exA, exB])) = [100, 100, 50]"
  using save_all_partition [of "exBatch [exA, exOffsetting, exB]" exStore exClock]
    save_all_partition [of "exBatch [exA, exB]" exStore exClock]
  by (simp add: exBatch_def exA_def exB_def exOffsetting_def exNew_def exStore_def withId_def)

text \<open>
  The claim as stated, on a batch list with one item (\<open>N = 1\<close>), which carries a merge
  target id (\<open>M = 1\<close>) and exceeds its target of 100 by 30: the claim has no new record
  and one target updated in place, save-all leaves a store whose only record is a new
  one, the remainder of 30.
\<close>

theorem save_all_partition_counterexample:
  "saveAllStore exStore exClock (exBatch [exOtherOffsetting]) =
     [\<lparr>amount = 30, type = expense, categoryId = ''3'', date = ''2024-01-06'',
       note = ''shoes ('' @ txt_offset_remainder @ '')'', id_tx = ''1700''\<rparr>]"
  by (simp add: saveAllStore_def handleSaveAllBatch_def exBatch_def exOtherOffsetting_def
        exStore_def exClock_def validItems_def regularItems_def mergedItems_def
        addTransaction_def updateTarget_def remainderTrans_def Let_def dec_nat.simps)

subsection \<open>Selections that name no valid target\<close>

lemma find_None_no_match: "\<forall>x \<in> set xs. \<not> P x \<Longrightarrow> find P xs = None"
  by (induction xs) auto

lemma replace_absent:
  "map (\<lambda>t. if tempId t = sid then u else t) (filter (\<lambda>t. tempId t \<noteq> sid) xs)
     = filter (\<lambda>t. tempId t \<noteq> sid) xs"
  by (induction xs) simp_all

lemma select_unsaved_toast:
  assumes "activeBatchTempId st = Some sid" and "sid \<noteq> []"
    and "find (\<lambda>t. tempId t = sid) (batchList st) = Some S"
    and "find (\<lambda>t. tempId t = tid) (batchList st) = Some T"
  shows "toast (handleSelectBatchMergeTarget tid True st) =
           Some (if type (rest S) = type (rest T) then txt_merged else txt_offset_done, success)"
proof -
  have "truthy (activeBatchTempId st)" using assms(1,2) by simp
  then show ?thesis
    unfolding handleSelectBatchMergeTarget_def
    by (simp add: assms(1,3,4) showToast_def Let_def)
qed

lemma select_unsaved_missing:
  assumes "find (\<lambda>t. tempId t = sid) (batchList st) = None
           \<or> find (\<lambda>t. tempId t = tid) (batchList st) = None"
    and "activeBatchTempId st = Some sid"
  shows "batchList (handleSelectBatchMergeTarget tid True st) = batchList st"
    and "toast (handleSelectBatchMergeTarget tid True st) = toast st"
  using assms
  by (auto simp: handleSelectBatchMergeTarget_def Let_def split: option.splits)

lemma select_saved:
  assumes "activeBatchTempId st = Some sid" and "sid \<noteq> []"
  shows "batchList (handleSelectBatchMergeTarget targetId False st) =
           map (\<lambda>item. if tempId item = sid then set_mergeTargetId (Some targetId) item else item)
               (batchList st)"
    and "toast (handleSelectBatchMergeTarget targetId False st) = toast st"
  using assms by (simp_all add: handleSelectBatchMergeTarget_def Let_def)

lemma select_toast_cases:
  "toast (handleSelectBatchMergeTarget targetId b st) = toast st
   \<or> toast (handleSelectBatchMergeTarget targetId b st) = Some (txt_merged, success)
   \<or> toast (handleSelectBatchMergeTarget targetId b st) = Some (txt_offset_done, success)"
proof (cases "truthy (activeBatchTempId st)")
  case False
  then show ?thesis by (simp add: handleSelectBatchMergeTarget_def)
next
  case True
  then obtain sid where sid: "activeBatchTempId st = Some sid" "sid \<noteq> []"
    by (cases "activeBatchTempId st") auto
  show ?thesis
  proof (cases b)
    case False
    then show ?thesis using select_saved(2) [OF sid] by simp
  next
    case b: True
    show ?thesis
    proof (cases "find (\<lambda>t. tempId t = sid) (batchList st)")
      case None
      then show ?thesis using select_unsaved_missing(2) [OF _ sid(1)] b by simp
    next
      case S: (Some S)
      show ?thesis
      proof (cases "find (\<lambda>t. tempId t = targetId) (batchList st)")
        case None
        then show ?thesis using select_unsaved_missing(2) [OF _ sid(1)] b by simp
      next
        case T: (Some T)
        show ?thesis using select_unsaved_toast [OF sid S T] b by simp
      qed
    qed
  qed
qed

lemma select_self:
  assumes "activeBatchTempId st = Some sid" and "sid \<noteq> []"
    and "find (\<lambda>t. tempId t = sid) (batchList st) = Some S"
  shows "batchList (handleSelectBatchMergeTarget sid True st) =
           filter (\<lambda>t. tempId t \<noteq> sid) (batchList st)"
    and "toast (handleSelectBatchMergeTarget sid True st) = Some (txt_merged, success)"
proof -
  show "batchList (handleSelectBatchMergeTarget sid True st) =
           filter (\<lambda>t. tempId t \<noteq> sid) (batchList st)"
    unfolding select_unsaved_batchList [OF assms assms(3)] by (rule replace_absent)
  show "toast (handleSelectBatchMergeTarget sid True st) = Some (txt_merged, success)"
    unfolding select_unsaved_toast [OF assms assms(3)] by simp
qed

text \<open>
  C8, as the code has it. The handler has no error result and no invalid-target
  condition: the only toasts it sets are the two success toasts. With no active source
  it changes nothing. A selection of an unsaved target whose id no item of the batch
  list carries leaves the list and the toast as they were. A selection of a saved target
  consults no store: whatever the id, it is recorded as \<open>mergeTargetId\<close> on the items
  with the source's \<open>tempId\<close>, without a toast. Called with the source's own id as
  unsaved target, the handler removes the source from the list and sets the
  merge-success toast. A merge of an item with itself is kept out by the candidate list
  alone: \<open>getBatchMergeCandidates\<close> returns items of the batch list and never one with
  the source's own \<open>tempId\<close>.
\<close>

theorem invalid_merge_target:
  "(toast (handleSelectBatchMergeTarget targetId isUnsavedBatchItem st) = toast st
      \<or> toast (handleSelectBatchMergeTarget targetId isUnsavedBatchItem st)
          = Some (txt_merged, success)
      \<or> toast (handleSelectBatchMergeTarget targetId isUnsavedBatchItem st)
          = Some (txt_offset_done, success))
   \<and> (\<not> truthy (activeBatchTempId st) \<longrightarrow>
        handleSelectBatchMergeTarget targetId isUnsavedBatchItem st = st)
   \<and> ((\<forall>t \<in> set (batchList st). tempId t \<noteq> targetId) \<longrightarrow>
        batchList (handleSelectBatchMergeTarget targetId True st) = batchList st
        \<and> toast (handleSelectBatchMergeTarget targetId True st) = toast st)
   \<and> (activeBatchTempId st = Some sid \<and> sid \<noteq> [] \<longrightarrow>
        batchList (handleSelectBatchMergeTarget targetId False st) =
          map (\<lambda>item. if tempId item = sid then set_mergeTargetId (Some targetId) item else item)
              (batchList st)
        \<and> toast (handleSelectBatchMergeTarget targetId False st) = toast st)
   \<and> (activeBatchTempId st = Some sid \<and> sid \<noteq> []
        \<and> find (\<lambda>t. tempId t = sid) (batchList st) = Some S \<longrightarrow>
        batchList (handleSelectBatchMergeTarget sid True st) =
          filter (\<lambda>t. tempId t \<noteq> sid) (batchList st)
        \<and> toast (handleSelectBatchMergeTarget sid True st) = Some (txt_merged, success))
   \<and> (\<forall>t \<in> set (getBatchMergeCandidates sid st). tempId t \<noteq> sid \<and> t \<in> set (batchList st))"
proof (intro conjI impI)
  show "toast (handleSelectBatchMergeTarget targetId isUnsavedBatchItem st) = toast st
      \<or> toast (handleSelectBatchMergeTarget targetId isUnsavedBatchItem st)
          = Some (txt_merged, success)
      \<or> toast (handleSelectBatchMergeTarget targetId isUnsavedBatchItem st)
          = Some (txt_offset_done, success)"
    by (rule select_toast_cases)
next
  assume "\<not> truthy (activeBatchTempId st)"
  then show "handleSelectBatchMergeTarget targetId isUnsavedBatchItem st = st"
    by (simp add: handleSelectBatchMergeTarget_def)
next
  assume "\<forall>t \<in> set (batchList st). tempId t \<noteq> targetId"
  then have none: "find (\<lambda>t. tempId t = targetId) (batchList st) = None"
    by (intro find_None_no_match) simp
  show "batchList (handleSelectBatchMergeTarget targetId True st) = batchList st"
    by (simp add: handleSelectBatchMergeTarget_def Let_def none split: option.splits)
  show "toast (handleSelectBatchMergeTarget targetId True st) = toast st"
    by (simp add: handleSelectBatchMergeTarget_def Let_def none split: option.splits)
next
  assume a: "activeBatchTempId st = Some sid \<and> sid \<noteq> []"
  then have sid: "activeBatchTempId st = Some sid" "sid \<noteq> []" by simp_all
  show "batchList (handleSelectBatchMergeTarget targetId False st) =
          map (\<lambda>item. if tempId item = sid then set_mergeTargetId (Some targetId) item else item)
              (batchList st)"
    by (rule select_saved(1) [OF sid])
  show "toast (handleSelectBatchMergeTarget targetId False st) = toast st"
    by (rule select_saved(2) [OF sid])
next
  assume a: "activeBatchTempId st = Some sid \<and> sid \<noteq> []
        \<and> find (\<lambda>t. tempId t = sid) (batchList st) = Some S"
  then have sid: "activeBatchTempId st = Some sid" "sid \<noteq> []"
    and S: "find (\<lambda>t. tempId t = sid) (batchList st) = Some S" by simp_all
  show "batchList (handleSelectBatchMergeTarget sid True st) =
          filter (\<lambda>t. tempId t \<noteq> sid) (batchList st)"
    by (rule select_self(1) [OF sid S])
  show "toast (handleSelectBatchMergeTarget sid True st) = Some (txt_merged, success)"
    by (rule select_self(2) [OF sid S])
next
  show "\<forall>t \<in> set (getBatchMergeCandidates sid st). tempId t \<noteq> sid \<and> t \<in> set (batchList st)"
    by (simp add: getBatchMergeCandidates_def)
qed

theorem invalid_merge_target_witness:
  "batchList (handleSelectBatchMergeTarget ''t9'' True exMergeState) = [exA, exB]
   \<and> toast (handleSelectBatchMergeTarget ''t9'' True exMergeState) = None
   \<and> map mergeTargetId (batchList (handleSelectBatchMergeTarget ''t9'' False exMergeState))
       = [Some ''t9'', None]
   \<and> batchList (handleSelectBatchMergeTarget ''t1'' True exMergeState) = [exB]
   \<and> getBatchMergeCandidates ''t1'' exMergeState = [exB]"
proof -
  note th = invalid_merge_target [of "''t9''" True exMergeState "''t1''" exA]
  have h: "\<forall>t \<in> set (batchList exMergeState). tempId t \<noteq> ''t9''"
    by (simp add: exMergeState_def exA_def exB_def)
  have act: "activeBatchTempId exMergeState = Some ''t1'' \<and> ''t1'' \<noteq> []"
    by (simp add: exMergeState_def)
  have src: "find (\<lambda>t. tempId t = ''t1'') (batchList exMergeState) = Some exA"
    by (simp add: exMergeState_def exA_def)
  have bl: "batchList exMergeState = [exA, exB]" and ts: "toast exMergeState = None"
    by (simp_all add: exMergeState_def)
  have a: "batchList (handleSelectBatchMergeTarget ''t9'' True exMergeState) = batchList exMergeState"
    and b: "toast (handleSelectBatchMergeTarget ''t9'' True exMergeState) = toast exMergeState"
    using th h by blast+
  have c: "batchList (handleSelectBatchMergeTarget ''t9'' False exMergeState) =
          map (\<lambda>item. if tempId item = ''t1'' then set_mergeTargetId (Some ''t9'') item else item)
              (batchList exMergeState)"
    using th act by blast
  have d: "batchList (handleSelectBatchMergeTarget ''t1'' True exMergeState) =
          filter (\<lambda>t. tempId t \<noteq> ''t1'') (batchList exMergeState)"
    using th act src by blast
  have e: "getBatchMergeCandidates ''t1'' exMergeState = [exB]"
    by (simp add: getBatchMergeCandidates_def exMergeState_def exA_def exB_def)
  show ?thesis
    unfolding a b c d e bl ts
    by (simp add: exA_def exB_def set_mergeTargetId_def)
qed

text \<open>
  The claim as stated is about selections the picker does not offer, so each input is
  a direct call of the handler on the list \<open>[exA, exB]\<close> with \<open>exA\<close> the active source.
  A merge of the source with itself removes it from the list and sets the success
  toast. A saved target id that no record has is recorded on the source. An unsaved
  target id that no item has leaves the list alone, and nothing is reported.
\<close>

theorem invalid_merge_target_counterexample:
  "batchList exMergeState = [exA, exB]
   \<and> batchList (handleSelectBatchMergeTarget ''t1'' True exMergeState) = [exB]
   \<and> toast (handleSelectBatchMergeTarget ''t1'' True exMergeState) = Some (txt_merged, success)
   \<and> map mergeTargetId (batchList (handleSelectBatchMergeTarget ''t9'' False exMergeState))
       = [Some ''t9'', None]
   \<and> toast (handleSelectBatchMergeTarget ''t9'' True exMergeState) = None"
  by (simp add: handleSelectBatchMergeTarget_def exMergeState_def exA_def exB_def
        showToast_def set_mergeTargetId_def Let_def)

subsection \<open>Splitting: positions and the reverted item\<close>

lemma findIndex_Some_D:
  "findIndex P xs = Some i \<Longrightarrow> i < length xs \<and> P (xs ! i) \<and> (\<forall>j < i. \<not> P (xs ! j))"
proof (induction xs arbitrary: i)
  case Nil
  then show ?case by simp
next
  case (Cons x xs)
  show ?case
  proof (cases "P x")
    case True
    then show ?thesis using Cons.prems by simp
  next
    case False
    then obtain k where k: "findIndex P xs = Some k" "i = Suc k"
      using Cons.prems by auto
    have ih: "k < length xs \<and> P (xs ! k) \<and> (\<forall>j < k. \<not> P (xs ! j))"
      using Cons.IH [OF k(1)] .
    have "\<forall>j < Suc k. \<not> P ((x # xs) ! j)"
    proof (intro allI impI)
      fix j assume "j < Suc k"
      then show "\<not> P ((x # xs) ! j)" using False ih by (cases j) simp_all
    qed
    then show ?thesis using ih k(2) by simp
  qed
qed

lemma find_findIndex:
  "find P xs = Some x \<Longrightarrow> \<exists>i. findIndex P xs = Some i \<and> xs ! i = x"
  by (induction xs) (auto split: if_splits)

lemma find_filter_implied:
  "(\<And>x. P x \<Longrightarrow> Q x) \<Longrightarrow> find P (filter Q xs) = find P xs"
  by (induction xs) auto

lemma findIndex_replace:
  "tempId u = tid \<Longrightarrow>
   findIndex (\<lambda>t. tempId t = tid) (map (\<lambda>t. if tempId t = tid then u else t) xs)
     = findIndex (\<lambda>t. tempId t = tid) xs"
  by (induction xs) auto

lemma take_replace:
  "findIndex (\<lambda>t. tempId t = tid) xs = Some i \<Longrightarrow>
   take i (map (\<lambda>t. if tempId t = tid then u else t) xs) = take i xs"
proof (induction xs arbitrary: i)
  case Nil
  then show ?case by simp
next
  case (Cons x xs)
  show ?case
  proof (cases "tempId x = tid")
    case True
    then show ?thesis using Cons.prems by simp
  next
    case False
    then obtain k where k: "findIndex (\<lambda>t. tempId t = tid) xs = Some k" "i = Suc k"
      using Cons.prems by auto
    show ?thesis using Cons.IH [OF k(1)] False k(2) by simp
  qed
qed

lemma revertedParent_fresh_target:
  assumes "mergedChildren T = None"
  shows "revertedParent (updatedTarget S T) =
           BatchTransaction (rest T) (tempId T) (mergeTargetId T) None None None"
  using assms by (simp add: revertedParent_def updatedTarget_def baseTarget_def Let_def)

lemma children_fresh_target:
  "mergedChildren T = None \<Longrightarrow> children (updatedTarget S T) = [S]"
  by (simp add: children_def)

lemma splitList_at:
  assumes "findIndex (\<lambda>t. tempId t = tid) ys = Some i" and "children (ys ! i) \<noteq> []"
  shows "splitList tid ys =
           take i ys @ [revertedParent (ys ! i)] @ children (ys ! i) @ drop (Suc i) ys"
proof -
  have i: "i < length ys" using findIndex_Some_D [OF assms(1)] by simp
  have "splitList tid ys =
          take (Suc i) (ys[i := revertedParent (ys ! i)]) @ children (ys ! i)
          @ drop (Suc i) (ys[i := revertedParent (ys ! i)])"
    using assms by (simp add: splitList_def splice_in_def Let_def)
  also have "take (Suc i) (ys[i := revertedParent (ys ! i)]) = take i ys @ [revertedParent (ys ! i)]"
    using i by (simp add: take_Suc_conv_app_nth)
  also have "drop (Suc i) (ys[i := revertedParent (ys ! i)]) = drop (Suc i) ys"
    by simp
  finally show ?thesis by simp
qed

lemma split_after_select:
  assumes "activeBatchTempId st = Some sid" and "sid \<noteq> []"
    and "find (\<lambda>t. tempId t = sid) (batchList st) = Some S"
    and "find (\<lambda>t. tempId t = tid) (batchList st) = Some T"
    and "tid \<noteq> sid"
    and "mergedChildren T = None"
  shows "\<exists>i. findIndex (\<lambda>t. tempId t = tid) (filter (\<lambda>t. tempId t \<noteq> sid) (batchList st)) = Some i
           \<and> filter (\<lambda>t. tempId t \<noteq> sid) (batchList st) ! i = T
           \<and> batchList (handleSplitBatchItem tid (handleSelectBatchMergeTarget tid True st)) =
               take i (filter (\<lambda>t. tempId t \<noteq> sid) (batchList st))
               @ [BatchTransaction (rest T) (tempId T) (mergeTargetId T) None None None, S]
               @ drop (Suc i) (map (\<lambda>t. if tempId t = tid then updatedTarget S T else t)
                                   (filter (\<lambda>t. tempId t \<noteq> sid) (batchList st)))"
proof -
  let ?xs = "filter (\<lambda>t. tempId t \<noteq> sid) (batchList st)"
  let ?u = "updatedTarget S T"
  let ?ys = "map (\<lambda>t. if tempId t = tid then ?u else t) ?xs"
  have bl: "batchList (handleSelectBatchMergeTarget tid True st) = ?ys"
    using assms(1-4) by (rule select_unsaved_batchList)
  have T: "tempId T = tid" using find_Some_D [OF assms(4)] by simp
  have "find (\<lambda>t. tempId t = tid) ?xs = find (\<lambda>t. tempId t = tid) (batchList st)"
    using assms(5) by (intro find_filter_implied) simp
  also note assms(4)
  finally have "find (\<lambda>t. tempId t = tid) ?xs = Some T" .
  then have "\<exists>i. findIndex (\<lambda>t. tempId t = tid) ?xs = Some i \<and> ?xs ! i = T"
    by (rule find_findIndex)
  then obtain i where i: "findIndex (\<lambda>t. tempId t = tid) ?xs = Some i" "?xs ! i = T"
    by (elim exE conjE)
  have len: "i < length ?xs" using findIndex_Some_D [OF i(1)] by simp
  have tu: "tempId ?u = tid" using T by simp
  have fi: "findIndex (\<lambda>t. tempId t = tid) ?ys = Some i"
    using findIndex_replace [OF tu, of ?xs] i(1) by simp
  have "?ys ! i = (if tempId (?xs ! i) = tid then ?u else ?xs ! i)"
    using len by (rule nth_map)
  also have "\<dots> = ?u" unfolding i(2) by (simp only: T refl if_True)
  finally have yi: "?ys ! i = ?u" .
  have ch: "children (?ys ! i) \<noteq> []"
    unfolding yi using children_fresh_target [OF assms(6)] by simp
  have "splitList tid ?ys =
          take i ?ys @ [revertedParent (?ys ! i)] @ children (?ys ! i) @ drop (Suc i) ?ys"
    using fi ch by (rule splitList_at)
  also have "take i ?ys = take i ?xs" using i(1) by (rule take_replace)
  also have "revertedParent (?ys ! i) =
               BatchTransaction (rest T) (tempId T) (mergeTargetId T) None None None"
    unfolding yi using assms(6) by (rule revertedParent_fresh_target)
  also have "children (?ys ! i) = [S]"
    unfolding yi using assms(6) by (rule children_fresh_target)
  finally have sp: "splitList tid ?ys =
      take i ?xs @ [BatchTransaction (rest T) (tempId T) (mergeTargetId T) None None None, S]
      @ drop (Suc i) ?ys" by simp
  have "batchList (handleSplitBatchItem tid (handleSelectBatchMergeTarget tid True st)) =
          splitList tid (batchList (handleSelectBatchMergeTarget tid True st))"
    by (simp add: handleSplitBatchItem_def showToast_def)
  also have "\<dots> = splitList tid ?ys" by (simp only: bl)
  also note sp
  finally have res: "batchList (handleSplitBatchItem tid (handleSelectBatchMergeTarget tid True st)) =
      take i ?xs @ [BatchTransaction (rest T) (tempId T) (mergeTargetId T) None None None, S]
      @ drop (Suc i) ?ys" .
  show ?thesis by (rule exI [of _ i]) (intro conjI i res)
qed

subsection \<open>Merge followed by split\<close>

lemma inserted_pair:
  assumes "i < length xs" and "l = take i xs @ [a, b] @ drop (Suc i) zs"
    and "length zs = length xs"
  shows "length l = Suc (length xs)" and "take i l = take i xs" and "l ! i = a" and "l ! Suc i = b"
proof -
  have ti: "length (take i xs) = i" using assms(1) by simp
  show "length l = Suc (length xs)" unfolding assms(2) using assms(1,3) by simp
  show "take i l = take i xs" unfolding assms(2) using ti by simp
  show "l ! i = a" unfolding assms(2) using ti by (simp add: nth_append)
  show "l ! Suc i = b" unfolding assms(2) using ti by (simp add: nth_append)
qed

text \<open>
  C4. Let \<open>T\<close> be an item of the batch list without children and \<open>S\<close> the active source,
  another item. After \<open>S\<close> is merged or offset into \<open>T\<close> and \<open>T\<close> is split, the list is
  the list without \<open>S\<close> plus one item: up to \<open>T\<close>'s position \<open>i\<close> nothing has changed, the
  item at \<open>i\<close> has \<open>T\<close>'s fields, amount and note before the merge, and neither children nor
  snapshot (it is \<open>T\<close> itself when \<open>T\<close> had no snapshot), and the item right after it is
  \<open>S\<close>. This holds whether or not the offset was floored at zero.
\<close>

theorem split_restores_merge:
  assumes "activeBatchTempId st = Some sid" and "sid \<noteq> []"
    and "find (\<lambda>t. tempId t = sid) (batchList st) = Some S"
    and "find (\<lambda>t. tempId t = tid) (batchList st) = Some T"
    and "tid \<noteq> sid"
    and "mergedChildren T = None"
  shows "\<exists>i. findIndex (\<lambda>t. tempId t = tid) (filter (\<lambda>t. tempId t \<noteq> sid) (batchList st)) = Some i
           \<and> filter (\<lambda>t. tempId t \<noteq> sid) (batchList st) ! i = T
           \<and> length (mergeThenSplit tid st)
               = Suc (length (filter (\<lambda>t. tempId t \<noteq> sid) (batchList st)))
           \<and> take i (mergeThenSplit tid st) = take i (filter (\<lambda>t. tempId t \<noteq> sid) (batchList st))
           \<and> rest (mergeThenSplit tid st ! i) = rest T
           \<and> amount (rest (mergeThenSplit tid st ! i)) = amount (rest T)
           \<and> note (rest (mergeThenSplit tid st ! i)) = note (rest T)
           \<and> tempId (mergeThenSplit tid st ! i) = tempId T
           \<and> mergeTargetId (mergeThenSplit tid st ! i) = mergeTargetId T
           \<and> mergedChildren (mergeThenSplit tid st ! i) = None
           \<and> originalAmount (mergeThenSplit tid st ! i) = None
           \<and> originalNote (mergeThenSplit tid st ! i) = None
           \<and> (originalAmount T = None \<and> originalNote T = None \<longrightarrow> mergeThenSplit tid st ! i = T)
           \<and> mergeThenSplit tid st ! Suc i = S"
proof -
  let ?xs = "filter (\<lambda>t. tempId t \<noteq> sid) (batchList st)"
  let ?ys = "map (\<lambda>t. if tempId t = tid then updatedTarget S T else t) ?xs"
  let ?R = "BatchTransaction (rest T) (tempId T) (mergeTargetId T) None None None"
  from split_after_select [OF assms]
  obtain i where i: "findIndex (\<lambda>t. tempId t = tid) ?xs = Some i" "?xs ! i = T"
    and l: "mergeThenSplit tid st = take i ?xs @ [?R, S] @ drop (Suc i) ?ys"
    unfolding mergeThenSplit_def by (elim exE conjE)
  have len: "i < length ?xs" using findIndex_Some_D [OF i(1)] by simp
  have ly: "length ?ys = length ?xs" by simp
  note p = inserted_pair [OF len l ly]
  have R: "mergeThenSplit tid st ! i = ?R" by (rule p(3))
  have same: "originalAmount T = None \<and> originalNote T = None \<longrightarrow> mergeThenSplit tid st ! i = T"
  proof
    assume "originalAmount T = None \<and> originalNote T = None"
    then have "?R = T" using assms(6) by (cases T) simp
    then show "mergeThenSplit tid st ! i = T" using R by simp
  qed
  have fields: "rest (mergeThenSplit tid st ! i) = rest T"
    "amount (rest (mergeThenSplit tid st ! i)) = amount (rest T)"
    "note (rest (mergeThenSplit tid st ! i)) = note (rest T)"
    "tempId (mergeThenSplit tid st ! i) = tempId T"
    "mergeTargetId (mergeThenSplit tid st ! i) = mergeTargetId T"
    "mergedChildren (mergeThenSplit tid st ! i) = None"
    "originalAmount (mergeThenSplit tid st ! i) = None"
    "originalNote (mergeThenSplit tid st ! i) = None"
    unfolding R by simp_all
  show ?thesis
    by (rule exI [of _ i]) (intro conjI i p(1) p(2) p(4) fields same)
qed

theorem split_restores_merge_witness:
  "mergeThenSplit ''t2'' exMergeState ! 0 = exB
   \<and> mergeThenSplit ''t2'' exMergeState ! Suc 0 = exA
   \<and> length (mergeThenSplit ''t2'' exMergeState) = 2
   \<and> mergeThenSplit ''t2'' exOffsetState ! 0 = exB
   \<and> mergeThenSplit ''t2'' exOffsetState ! Suc 0 = exI"
  using split_restores_merge [of exMergeState "''t1''" exA "''t2''" exB]
    split_restores_merge [of exOffsetState "''t3''" exI "''t2''" exB]
  by (simp add: exMergeState_def exOffsetState_def exA_def exB_def exI_def)

subsection \<open>The snapshot invariant of a batch item\<close>

lemma wf_item_iff:
  "wf_item t \<longleftrightarrow>
     (case mergedChildren t of
        None \<Rightarrow> originalAmount t = None \<and> originalNote t = None
      | Some cs \<Rightarrow> cs \<noteq> [] \<and> originalAmount t \<noteq> None \<and> originalNote t \<noteq> None
                   \<and> (\<forall>x \<in> set cs. wf_item x))"
  by (cases t) (simp split: option.splits)

lemma wf_item_children: "wf_item t \<Longrightarrow> c \<in> set (children t) \<Longrightarrow> wf_item c"
  by (cases t) (auto simp: children_def split: option.splits)

lemma wf_item_snapshot:
  assumes "wf_item t"
  shows "(children t \<noteq> []) = (originalAmount t \<noteq> None)"
    and "(children t \<noteq> []) = (originalNote t \<noteq> None)"
  using assms by (cases t; simp add: children_def split: option.splits)+

lemma wf_newBatchItem: "wf_item (newBatchItem tid a cat d n)"
  by (simp add: newBatchItem_def)

lemma wf_setField: "formField fv \<Longrightarrow> wf_item t \<Longrightarrow> wf_item (setField fv t)"
  by (cases t; cases fv) simp_all

lemma wf_set_mergeTargetId: "wf_item t \<Longrightarrow> wf_item (set_mergeTargetId m t)"
  by (cases t) (simp add: set_mergeTargetId_def)

lemma wf_revertedParent: "wf_item (revertedParent t)"
  by (simp add: revertedParent_def)

lemma originalAmount_updatedTarget:
  "originalAmount (updatedTarget S T) =
     (if mergedChildren T = None then Some (amount (rest T)) else originalAmount T)"
  by (simp add: updatedTarget_def baseTarget_def Let_def split: option.splits)

lemma originalNote_updatedTarget:
  "originalNote (updatedTarget S T) =
     (if mergedChildren T = None then Some (note (rest T)) else originalNote T)"
  by (simp add: updatedTarget_def baseTarget_def Let_def split: option.splits)

lemma wf_updatedTarget:
  assumes "wf_item S" and "wf_item T"
  shows "wf_item (updatedTarget S T)"
proof -
  have ch: "\<forall>x \<in> set (children T @ [S]). wf_item x"
    using assms wf_item_children [OF assms(2)] by auto
  have oa: "originalAmount (updatedTarget S T) \<noteq> None"
    using assms(2) by (cases T) (simp add: originalAmount_updatedTarget split: option.splits)
  have on: "originalNote (updatedTarget S T) \<noteq> None"
    using assms(2) by (cases T) (simp add: originalNote_updatedTarget split: option.splits)
  show ?thesis
    unfolding wf_item_iff [of "updatedTarget S T"] using ch oa on by simp
qed

subsection \<open>The invariant along the events\<close>

lemma wf_select:
  assumes wf: "\<forall>t \<in> set (batchList st). wf_item t"
  shows "\<forall>t \<in> set (batchList (handleSelectBatchMergeTarget targetId b st)). wf_item t"
proof (cases "truthy (activeBatchTempId st)")
  case False
  then show ?thesis using wf by (simp add: handleSelectBatchMergeTarget_def)
next
  case True
  then obtain sid where sid: "activeBatchTempId st = Some sid" "sid \<noteq> []"
    by (cases "activeBatchTempId st") auto
  show ?thesis
  proof (cases b)
    case False
    have "batchList (handleSelectBatchMergeTarget targetId False st) =
            map (\<lambda>item. if tempId item = sid then set_mergeTargetId (Some targetId) item else item)
                (batchList st)"
      using sid by (simp add: handleSelectBatchMergeTarget_def Let_def)
    then show ?thesis using wf False by (auto simp: wf_set_mergeTargetId)
  next
    case b: True
    show ?thesis
    proof (cases "find (\<lambda>t. tempId t = sid) (batchList st)")
      case None
      then have "batchList (handleSelectBatchMergeTarget targetId True st) = batchList st"
        using sid by (simp add: handleSelectBatchMergeTarget_def Let_def)
      then show ?thesis using wf b by simp
    next
      case S: (Some S)
      show ?thesis
      proof (cases "find (\<lambda>t. tempId t = targetId) (batchList st)")
        case None
        then have "batchList (handleSelectBatchMergeTarget targetId True st) = batchList st"
          using sid S by (simp add: handleSelectBatchMergeTarget_def Let_def)
        then show ?thesis using wf b by simp
      next
        case T: (Some T)
        have bl: "batchList (handleSelectBatchMergeTarget targetId True st) =
           map (\<lambda>t. if tempId t = targetId then updatedTarget S T else t)
               (filter (\<lambda>t. tempId t \<noteq> sid) (batchList st))"
          using sid S T by (rule select_unsaved_batchList)
        have "wf_item S" using find_Some_D [OF S] wf by blast
        moreover have "wf_item T" using find_Some_D [OF T] wf by blast
        ultimately have u: "wf_item (updatedTarget S T)" by (rule wf_updatedTarget)
        have "\<forall>t \<in> set (batchList (handleSelectBatchMergeTarget targetId True st)). wf_item t"
        proof
          fix t assume "t \<in> set (batchList (handleSelectBatchMergeTarget targetId True st))"
          then have "t = updatedTarget S T \<or> t \<in> set (filter (\<lambda>t. tempId t \<noteq> sid) (batchList st))"
            unfolding bl by (rule in_replaced)
          then show "wf_item t" using u wf by auto
        qed
        then show ?thesis using b by simp
      qed
    qed
  qed
qed

lemma wf_splitList:
  assumes wf: "\<forall>t \<in> set bl. wf_item t"
  shows "\<forall>t \<in> set (splitList tid bl). wf_item t"
proof (cases "findIndex (\<lambda>t. tempId t = tid) bl")
  case None
  then show ?thesis using wf by (simp add: splitList_def)
next
  case (Some i)
  have i: "i < length bl" using findIndex_Some_D [OF Some] by simp
  then have item: "bl ! i \<in> set bl" by simp
  show ?thesis
  proof (cases "children (bl ! i) = []")
    case True
    then show ?thesis using wf Some by (simp add: splitList_def)
  next
    case False
    have eq: "splitList tid bl =
           take i bl @ [revertedParent (bl ! i)] @ children (bl ! i) @ drop (Suc i) bl"
      using Some False by (rule splitList_at)
    show ?thesis
    proof
      fix t assume "t \<in> set (splitList tid bl)"
      then have "t \<in> set (take i bl) \<or> t = revertedParent (bl ! i)
                 \<or> t \<in> set (children (bl ! i)) \<or> t \<in> set (drop (Suc i) bl)"
        unfolding eq by auto
      moreover have "t \<in> set (take i bl) \<Longrightarrow> wf_item t"
        using wf by (meson in_set_takeD)
      moreover have "t \<in> set (drop (Suc i) bl) \<Longrightarrow> wf_item t"
        using wf by (meson in_set_dropD)
      moreover have "t \<in> set (children (bl ! i)) \<Longrightarrow> wf_item t"
        using wf item wf_item_children by blast
      ultimately show "wf_item t" using wf_revertedParent by blast
    qed
  qed
qed

lemma wf_handleEvent:
  assumes "formEvent e" and wf: "\<forall>t \<in> set (batchList st). wf_item t"
  shows "\<forall>t \<in> set (batchList (handleEvent e st)). wf_item t"
proof (cases e)
  case (AddRows rows)
  then show ?thesis using wf
    by (auto simp: addBatchItems_def wf_newBatchItem)
next
  case (UpdateField tid fv)
  then have "formField fv" using assms(1) by simp
  then show ?thesis using wf UpdateField
    by (auto simp: handleUpdateBatchItem_def wf_setField)
next
  case (DeleteItem tid)
  then show ?thesis using wf by (simp add: handleDeleteBatchItem_def Let_def)
next
  case (OpenMerge tid)
  then show ?thesis using wf by (simp add: handleOpenBatchMerge_def)
next
  case (SelectTarget targetId b)
  then show ?thesis using wf_select [OF wf] by simp
next
  case (ClearMerge tid)
  then show ?thesis using wf
    by (auto simp: handleClearBatchMerge_def wf_set_mergeTargetId)
next
  case (SplitItem tid)
  then show ?thesis using wf_splitList [OF wf]
    by (simp add: handleSplitBatchItem_def showToast_def)
next
  case (SaveSingle tid)
  then show ?thesis using wf
    by (simp add: handleSaveSingleBatchItem_def handleDeleteBatchItem_def showToast_def Let_def
          split: option.splits)
qed

lemma wf_runEvents:
  "list_all formEvent es \<Longrightarrow> \<forall>t \<in> set (batchList st). wf_item t \<Longrightarrow>
   \<forall>t \<in> set (batchList (runEvents es st)). wf_item t"
proof (induction es arbitrary: st)
  case Nil
  then show ?case by simp
next
  case (Cons e es)
  have "\<forall>t \<in> set (batchList (handleEvent e st)). wf_item t"
    using Cons.prems by (intro wf_handleEvent) simp_all
  then show ?case using Cons.IH [of "handleEvent e st"] Cons.prems(1) by simp
qed

subsection \<open>Children and snapshot go together\<close>

lemma split_item_at:
  assumes "findIndex (\<lambda>t. tempId t = tid) (batchList st) = Some i"
    and "children (batchList st ! i) \<noteq> []"
  shows "batchList (handleSplitBatchItem tid st) ! i = revertedParent (batchList st ! i)"
proof -
  have i: "length (take i (batchList st)) = i"
    using findIndex_Some_D [OF assms(1)] by simp
  have "batchList (handleSplitBatchItem tid st) = splitList tid (batchList st)"
    by (simp add: handleSplitBatchItem_def showToast_def)
  also have "\<dots> = take i (batchList st) @ [revertedParent (batchList st ! i)]
                    @ children (batchList st ! i) @ drop (Suc i) (batchList st)"
    using assms by (rule splitList_at)
  finally show ?thesis using i by (simp add: nth_append)
qed

lemma revertedParent_snapshot:
  assumes "wf_item t" and "children t \<noteq> []"
  shows "originalAmount t = Some (amount (rest (revertedParent t)))"
    and "originalNote t = Some (note (rest (revertedParent t)))"
proof -
  have "originalAmount t \<noteq> None" "originalNote t \<noteq> None"
    using wf_item_snapshot [OF assms(1)] assms(2) by simp_all
  then obtain a n where "originalAmount t = Some a" "originalNote t = Some n" by auto
  then show "originalAmount t = Some (amount (rest (revertedParent t)))"
    and "originalNote t = Some (note (rest (revertedParent t)))"
    by (simp_all add: revertedParent_def)
qed

text \<open>
  C5. After any sequence of events of the batch form, started from the empty list
  (rows added, fields edited, items merged or offset, split, deleted, saved one by
  one), every item of the batch list has a non-empty child list if and only if it has
  the snapshot, and then both snapshot fields. Splitting an item that has children
  leaves at its position an item with no children and no snapshot, whose amount and
  note are the snapshot's. The snapshot is taken when an item without children absorbs
  its first source, from its amount and note at that moment, and a later merge or
  offset keeps it.
\<close>

theorem snapshot_invariant:
  assumes "list_all formEvent es"
  shows "(\<forall>t \<in> set (batchList (runEvents es initialState)).
            (children t \<noteq> []) = (originalAmount t \<noteq> None \<and> originalNote t \<noteq> None)
          \<and> (children t = []) = (originalAmount t = None \<and> originalNote t = None))
       \<and> (\<forall>tid i. findIndex (\<lambda>t. tempId t = tid) (batchList (runEvents es initialState)) = Some i
                   \<and> children (batchList (runEvents es initialState) ! i) \<noteq> [] \<longrightarrow>
             mergedChildren (batchList (handleSplitBatchItem tid (runEvents es initialState)) ! i) = None
           \<and> originalAmount (batchList (handleSplitBatchItem tid (runEvents es initialState)) ! i) = None
           \<and> originalNote (batchList (handleSplitBatchItem tid (runEvents es initialState)) ! i) = None
           \<and> originalAmount (batchList (runEvents es initialState) ! i) =
               Some (amount (rest (batchList (handleSplitBatchItem tid (runEvents es initialState)) ! i)))
           \<and> originalNote (batchList (runEvents es initialState) ! i) =
               Some (note (rest (batchList (handleSplitBatchItem tid (runEvents es initialState)) ! i))))
       \<and> (\<forall>S T. originalAmount (updatedTarget S T) =
                   (if mergedChildren T = None then Some (amount (rest T)) else originalAmount T)
                \<and> originalNote (updatedTarget S T) =
                   (if mergedChildren T = None then Some (note (rest T)) else originalNote T))"
proof -
  let ?st = "runEvents es initialState"
  have "\<forall>t \<in> set (batchList initialState). wf_item t" by (simp add: initialState_def)
  with assms have wf: "\<forall>t \<in> set (batchList ?st). wf_item t" by (rule wf_runEvents)
  have inv: "\<forall>t \<in> set (batchList ?st).
            (children t \<noteq> []) = (originalAmount t \<noteq> None \<and> originalNote t \<noteq> None)
          \<and> (children t = []) = (originalAmount t = None \<and> originalNote t = None)"
  proof
    fix t assume "t \<in> set (batchList ?st)"
    then have "wf_item t" using wf by simp
    from wf_item_snapshot [OF this]
    show "(children t \<noteq> []) = (originalAmount t \<noteq> None \<and> originalNote t \<noteq> None)
          \<and> (children t = []) = (originalAmount t = None \<and> originalNote t = None)"
      by auto
  qed
  have split: "\<forall>tid i. findIndex (\<lambda>t. tempId t = tid) (batchList ?st) = Some i
                   \<and> children (batchList ?st ! i) \<noteq> [] \<longrightarrow>
             mergedChildren (batchList (handleSplitBatchItem tid ?st) ! i) = None
           \<and> originalAmount (batchList (handleSplitBatchItem tid ?st) ! i) = None
           \<and> originalNote (batchList (handleSplitBatchItem tid ?st) ! i) = None
           \<and> originalAmount (batchList ?st ! i) =
               Some (amount (rest (batchList (handleSplitBatchItem tid ?st) ! i)))
           \<and> originalNote (batchList ?st ! i) =
               Some (note (rest (batchList (handleSplitBatchItem tid ?st) ! i)))"
  proof (intro allI impI)
    fix tid i
    assume a: "findIndex (\<lambda>t. tempId t = tid) (batchList ?st) = Some i
                   \<and> children (batchList ?st ! i) \<noteq> []"
    then have fi: "findIndex (\<lambda>t. tempId t = tid) (batchList ?st) = Some i"
      and ch: "children (batchList ?st ! i) \<noteq> []" by simp_all
    have "i < length (batchList ?st)" using findIndex_Some_D [OF fi] by simp
    then have w: "wf_item (batchList ?st ! i)" using wf by simp
    have r: "batchList (handleSplitBatchItem tid ?st) ! i = revertedParent (batchList ?st ! i)"
      using fi ch by (rule split_item_at)
    show "mergedChildren (batchList (handleSplitBatchItem tid ?st) ! i) = None
           \<and> originalAmount (batchList (handleSplitBatchItem tid ?st) ! i) = None
           \<and> originalNote (batchList (handleSplitBatchItem tid ?st) ! i) = None
           \<and> originalAmount (batchList ?st ! i) =
               Some (amount (rest (batchList (handleSplitBatchItem tid ?st) ! i)))
           \<and> originalNote (batchList ?st ! i) =
               Some (note (rest (batchList (handleSplitBatchItem tid ?st) ! i)))"
      unfolding r
      by (intro conjI revertedParent_snapshot [OF w ch]) (simp_all add: revertedParent_def)
  qed
  have snap: "\<forall>S T. originalAmount (updatedTarget S T) =
                   (if mergedChildren T = None then Some (amount (rest T)) else originalAmount T)
                \<and> originalNote (updatedTarget S T) =
                   (if mergedChildren T = None then Some (note (rest T)) else originalNote T)"
    using originalAmount_updatedTarget originalNote_updatedTarget by blast
  show ?thesis by (intro conjI inv split snap)
qed

theorem snapshot_invariant_witness:
  "list_all formEvent exEvents
   \<and> map tempId (batchList (runEvents exEvents initialState)) = [''t2'']
   \<and> children (batchList (runEvents exEvents initialState) ! 0) = [exA]
   \<and> originalAmount (batchList (runEvents exEvents initialState) ! 0) = Some 60
   \<and> amount (rest (batchList (handleSplitBatchItem ''t2'' (runEvents exEvents initialState)) ! 0)) = 60
   \<and> note (rest (batchList (handleSplitBatchItem ''t2'' (runEvents exEvents initialState)) ! 0)) = ''taxi''
   \<and> mergedChildren (batchList (handleSplitBatchItem ''t2'' (runEvents exEvents initialState)) ! 0) = None"
proof -
  have ev: "list_all formEvent exEvents" by (simp add: exEvents_def)
  have run: "batchList (runEvents exEvents initialState) =
      [BatchTransaction \<lparr>amount = 160, type = expense, categoryId = ''1'', date = ''2024-01-02'',
         note = ''both''\<rparr> ''t2'' None (Some [exA]) (Some 60) (Some ''taxi'')]"
    by (simp add: exEvents_def initialState_def addBatchItems_def newBatchItem_def
          handleUpdateBatchItem_def handleOpenBatchMerge_def handleSelectBatchMergeTarget_def
          showToast_def updatedTarget_def baseTarget_def children_def exA_def Let_def)
  have fi: "findIndex (\<lambda>t. tempId t = ''t2'') (batchList (runEvents exEvents initialState)) = Some 0"
    unfolding run by simp
  have ch: "children (batchList (runEvents exEvents initialState) ! 0) = [exA]"
    unfolding run by (simp add: children_def)
  from snapshot_invariant [OF ev] fi ch
  have s: "mergedChildren (batchList (handleSplitBatchItem ''t2'' (runEvents exEvents initialState)) ! 0) = None
      \<and> originalAmount (batchList (runEvents exEvents initialState) ! 0) =
          Some (amount (rest (batchList (handleSplitBatchItem ''t2'' (runEvents exEvents initialState)) ! 0)))
      \<and> originalNote (batchList (runEvents exEvents initialState) ! 0) =
          Some (note (rest (batchList (handleSplitBatchItem ''t2'' (runEvents exEvents initialState)) ! 0)))"
    by simp
  have oa: "originalAmount (batchList (runEvents exEvents initialState) ! 0) = Some 60"
    and on: "originalNote (batchList (runEvents exEvents initialState) ! 0) = Some ''taxi''"
    and ids: "map tempId (batchList (runEvents exEvents initialState)) = [''t2'']"
    unfolding run by simp_all
  show ?thesis using ev ids ch oa on s by simp
qed

end
